theory Spec2Isabelle
  imports Complex_Main
begin

section \<open>Exceptions as values\<close>

text \<open>
  The exceptions raised in \<^verbatim>\<open>sharding_spec/api.py\<close> and by the helpers it calls.
  A \<^verbatim>\<open>ValueError\<close> carries the reason that the message of the source spells out.
\<close>

datatype value_reason =
    DimNotInteger
  | InvalidShardingDim int
  | EmptyShardList
  | InconsistentRanks int int
  | ShardsOverlap
  | ShapeMismatch
  | InvalidRank int

datatype error =
    NotImplementedError string
  | ValueError value_reason
  | ZeroDivisionError
  | RuntimeError string
  | IndexError

section \<open>Chunk size calculator\<close>

text \<open>
  Modelled from the spec: \<^verbatim>\<open>get_split_size\<close> of \<^verbatim>\<open>sharding_spec/_internals.py\<close>
  (imported by \<^verbatim>\<open>api.py\<close>, its body is not part of the sources at hand). The spec gives
  \<^verbatim>\<open>computeSplitSize(dimSize, numChunks) = ceil(dimSize / numChunks)\<close>. The quotient
  does not exist for \<^verbatim>\<open>numChunks = 0\<close>, where Python raises \<^verbatim>\<open>ZeroDivisionError\<close>
  for every way of writing the division; that is a branch of the model. The ceiling of the
  quotient is computed on the integers, see \<open>get_split_size_ceiling\<close>.
\<close>

definition get_split_size :: "int \<Rightarrow> int \<Rightarrow> error + int" where
  "get_split_size dim_size chunks =
     (if chunks = 0 then Inl ZeroDivisionError else Inr (- ((- dim_size) div chunks)))"

text \<open>
  Modelled from the spec: \<^verbatim>\<open>get_chunked_dim_size\<close> of \<^verbatim>\<open>sharding_spec/_internals.py\<close>,
  in the spec \<^verbatim>\<open>computeChunkSizeAt(dimSize, splitSize, chunkIndex) =
  max(0, min(splitSize, dimSize - chunkIndex*splitSize))\<close>.
\<close>

definition get_chunked_dim_size :: "int \<Rightarrow> int \<Rightarrow> int \<Rightarrow> int" where
  "get_chunked_dim_size dim_size split_size idx =
     max 0 (min split_size (dim_size - idx * split_size))"

section \<open>Data model\<close>

text \<open>
  Modelled from the spec: \<^verbatim>\<open>torch.distributed._remote_device\<close>, a class bound from C++
  that is not part of the sources at hand. In the spec a placement names a rank and,
  optionally, a device on that rank.
\<close>

record remote_device =
  rd_rank :: int
  rd_device :: "string option"

text \<open>An entry of a placements list: \<^verbatim>\<open>Union[torch.distributed._remote_device, str]\<close>.\<close>

datatype remote_device_or_str = PlacementStr string | RemoteDevice remote_device

text \<open>
  \<^verbatim>\<open>ShardMetadata\<close> (imported from \<^verbatim>\<open>..metadata\<close>): the fields that \<^verbatim>\<open>api.py\<close> reads
  and writes.
\<close>

record ShardMetadata =
  shard_offsets :: "int list"
  shard_sizes :: "int list"
  placement :: remote_device_or_str

record TensorProperties =
  dtype :: string
  layout :: string
  requires_grad :: bool
  memory_format :: string
  pin_memory :: bool

record ShardedTensorMetadata =
  shards_metadata :: "ShardMetadata list"
  md_size :: "int list"
  tensor_properties :: TensorProperties

text \<open>
  The type of \<^verbatim>\<open>dim\<close>, \<^verbatim>\<open>Union[int, str]\<close>; a dataclass does not enforce the annotation,
  so any other object may arrive as well.
\<close>

datatype ShardingDim = IntDim int | StrDim string | OtherDim

text \<open>
  Objects that the code shares with its caller live in a store and are named by
  references: the placements list, which \<^verbatim>\<open>__post_init__\<close> assigns into, and tensors,
  which \<^verbatim>\<open>shard\<close> hands on to the result. A tensor object carries what \<^verbatim>\<open>shard\<close> reads
  of it, the element it holds at each coordinate (an integer stands for the stored value,
  which is copied and never computed with), the storage it views, and its place in the
  autograd graph (\<open>tensor_grad_fn\<close> is \<open>None\<close> for a leaf).
\<close>

record tensor_obj =
  tensor_size :: "int list"
  tensor_elems :: "int list \<Rightarrow> int"
  tensor_storage :: nat
  tensor_requires_grad :: bool
  tensor_grad_fn :: "string option"
  tensor_dtype :: string
  tensor_layout :: string
  tensor_is_pinned :: bool

text \<open>A collective call issued by this process: the tensor, the source rank, the group.\<close>

datatype collective = Broadcast nat int "nat option"

record state =
  lists :: "nat \<Rightarrow> remote_device_or_str list"
  tensors :: "nat \<Rightarrow> tensor_obj"
  next_tensor :: nat
  next_storage :: nat
  collectives :: "collective list"

text \<open>
  The collaborators outside this module are parameters: the constructor of
  \<^verbatim>\<open>_remote_device\<close> applied to a string, the ambient default group
  (\<^verbatim>\<open>distributed_c10d._get_default_group()\<close>), \<^verbatim>\<open>dist.get_rank\<close>, the size of a group,
  whether the transport completes a broadcast, and the elements that a broadcast delivers
  to a rank other than the source. Process groups are named by numbers. The distributed
  runtime is taken as initialised, so that the default group exists.
\<close>

record dist_env =
  remote_device_ctor :: "string \<Rightarrow> error + remote_device"
  default_group :: nat
  get_rank :: "nat \<Rightarrow> int"
  get_world_size :: "nat \<Rightarrow> int"
  broadcast_failure :: "error option"
  broadcast_payload :: "int list \<Rightarrow> int"

definition resolve_group :: "dist_env \<Rightarrow> nat option \<Rightarrow> nat" where
  "resolve_group env process_group =
     (case process_group of None \<Rightarrow> default_group env | Some g \<Rightarrow> g)"

record ChunkShardingSpec =
  dim :: ShardingDim
  placements :: nat

record Shard =
  shard_tensor :: nat
  metadata :: ShardMetadata

text \<open>
  Modelled from the spec: the handle that \<^verbatim>\<open>ShardedTensor._init_from_local_shards\<close>
  returns (\<^verbatim>\<open>sharded_tensor\<close> is not part of the sources at hand). The spec has it built
  from the caller's local shard and descriptor pairs, the global shape and the process
  group, with the placement spec recorded on it afterwards.
\<close>

record ShardedTensor =
  st_local_shards :: "Shard list"
  st_size :: "int list"
  st_process_group :: "nat option"
  sharding_spec :: "ChunkShardingSpec option"

definition init_from_local_shards :: "Shard list \<Rightarrow> int list \<Rightarrow> nat option \<Rightarrow> ShardedTensor" where
  "init_from_local_shards shard_list global_size process_group =
     \<lparr>st_local_shards = shard_list, st_size = global_size, st_process_group = process_group,
      sharding_spec = None\<rparr>"

section \<open>ChunkShardingSpec\<close>

subsection \<open>Construction\<close>

definition verify_dim :: "ShardingDim \<Rightarrow> error option" where
  "verify_dim d =
     (case d of
        StrDim _ \<Rightarrow>
          Some (NotImplementedError ''ChunkShardingSpec does not support named dimension yet!'')
      | OtherDim \<Rightarrow> Some (ValueError DimNotInteger)
      | IntDim _ \<Rightarrow> None)"

text \<open>
  The loop of \<^verbatim>\<open>__post_init__\<close>: it walks the list object by index and assigns the parsed
  device into the same object. The constructor of \<^verbatim>\<open>_remote_device\<close> may raise, which
  leaves the entries before \<open>i\<close> replaced.
\<close>

function post_init_loop :: "dist_env \<Rightarrow> nat \<Rightarrow> nat \<Rightarrow> state \<Rightarrow> error option \<times> state" where
  "post_init_loop env ref i st =
     (if i < length (lists st ref) then
        (case lists st ref ! i of
           RemoteDevice _ \<Rightarrow> post_init_loop env ref (Suc i) st
         | PlacementStr s \<Rightarrow>
             (case remote_device_ctor env s of
                Inl e \<Rightarrow> (Some e, st)
              | Inr rd \<Rightarrow>
                  post_init_loop env ref (Suc i)
                    (st\<lparr>lists := (lists st)(ref := (lists st ref)[i := RemoteDevice rd])\<rparr>)))
      else (None, st))"
  by pat_completeness auto
termination
  by (relation "measure (\<lambda>(env, ref, i, st). length (lists st ref) - i)") auto

declare post_init_loop.simps [simp del]

definition ChunkShardingSpec_init ::
  "dist_env \<Rightarrow> ShardingDim \<Rightarrow> nat \<Rightarrow> state \<Rightarrow> (error + ChunkShardingSpec) \<times> state" where
  "ChunkShardingSpec_init env d ref st =
     (case verify_dim d of
        Some e \<Rightarrow> (Inl e, st)
      | None \<Rightarrow>
          (case post_init_loop env ref 0 st of
             (Some e, st') \<Rightarrow> (Inl e, st')
           | (None, st') \<Rightarrow> (Inr \<lparr>dim = d, placements = ref\<rparr>, st')))"

text \<open>
  What the claim about \<^verbatim>\<open>__post_init__\<close> expects of an entry of the list afterwards: a
  remote-device object is the one that was there, and a string has given way to the object
  that the constructor of \<^verbatim>\<open>_remote_device\<close> makes of it.
\<close>

definition parsed_entry :: "dist_env \<Rightarrow> remote_device_or_str \<Rightarrow> remote_device_or_str \<Rightarrow> bool" where
  "parsed_entry env old new =
     (case old of
        RemoteDevice rd \<Rightarrow> new = RemoteDevice rd
      | PlacementStr s \<Rightarrow>
          (case remote_device_ctor env s of
             Inl e \<Rightarrow> False
           | Inr rd \<Rightarrow> new = RemoteDevice rd))"

definition is_remote_device :: "remote_device_or_str \<Rightarrow> bool" where
  "is_remote_device p = (case p of RemoteDevice rd \<Rightarrow> True | PlacementStr s \<Rightarrow> False)"

subsection \<open>build_metadata\<close>

text \<open>
  Python resolves a negative index from the end. It is used on \<^verbatim>\<open>tensor_sizes\<close>,
  \<^verbatim>\<open>current_offsets\<close> and \<^verbatim>\<open>shard_size\<close> only behind the range check of
  \<^verbatim>\<open>build_metadata\<close>, so that no \<^verbatim>\<open>IndexError\<close> arises here.
\<close>

definition py_index :: "int \<Rightarrow> nat \<Rightarrow> nat" where
  "py_index i n = nat (if i < 0 then i + int n else i)"

text \<open>
  The loop over \<^verbatim>\<open>enumerate(self.placements)\<close>, with the list \<^verbatim>\<open>shards_metadata\<close> it
  appends to. The arguments are \<^verbatim>\<open>tensor_sizes\<close>, \<^verbatim>\<open>self.dim\<close>, \<^verbatim>\<open>sharding_dim_size\<close>
  and \<^verbatim>\<open>split_size\<close>.
\<close>

fun chunk_loop ::
  "int list \<Rightarrow> int \<Rightarrow> int \<Rightarrow> int \<Rightarrow> (nat \<times> remote_device_or_str) list \<Rightarrow>
   ShardMetadata list \<Rightarrow> ShardMetadata list" where
  "chunk_loop tensor_sizes d sharding_dim_size split_size [] acc = acc"
| "chunk_loop tensor_sizes d sharding_dim_size split_size ((idx, p) # rest) acc =
     (let chunked_dim_size = get_chunked_dim_size sharding_dim_size split_size (int idx) in
      if chunked_dim_size > 0 then
        (let shard_size = tensor_sizes;
             current_offsets = replicate (length tensor_sizes) (0::int);
             current_offsets = current_offsets[py_index d (length tensor_sizes) := split_size * int idx];
             shard_size = shard_size[py_index d (length tensor_sizes) := chunked_dim_size];
             shard_metadata =
               \<lparr>shard_offsets = current_offsets, shard_sizes = shard_size, placement = p\<rparr>
         in chunk_loop tensor_sizes d sharding_dim_size split_size rest (acc @ [shard_metadata]))
      else chunk_loop tensor_sizes d sharding_dim_size split_size rest acc)"

text \<open>
  \<^verbatim>\<open>ChunkShardingSpec.build_metadata\<close>. The group \<open>pg\<close> is resolved and then not used:
  the call that would validate each placement against it is commented out in the source.
\<close>

definition build_metadata ::
  "dist_env \<Rightarrow> state \<Rightarrow> ChunkShardingSpec \<Rightarrow> int list \<Rightarrow> TensorProperties \<Rightarrow> nat option \<Rightarrow>
   error + ShardedTensorMetadata" where
  "build_metadata env st self tensor_sizes props process_group =
     (let pg = resolve_group env process_group;
          tensor_num_dim = int (length tensor_sizes)
      in case verify_dim (dim self) of
           Some e \<Rightarrow> Inl e
         | None \<Rightarrow>
             (case dim self of
                IntDim d \<Rightarrow>
                  if d \<ge> tensor_num_dim \<or> d < - tensor_num_dim
                  then Inl (ValueError (InvalidShardingDim d))
                  else
                    (let sharding_dim_size = tensor_sizes ! py_index d (length tensor_sizes);
                         chunks = int (length (lists st (placements self)))
                     in case get_split_size sharding_dim_size chunks of
                          Inl e \<Rightarrow> Inl e
                        | Inr split_size \<Rightarrow>
                            Inr \<lparr>shards_metadata =
                                   chunk_loop tensor_sizes d sharding_dim_size split_size
                                     (enumerate 0 (lists st (placements self))) [],
                                 md_size = tensor_sizes,
                                 tensor_properties = props\<rparr>)
              | _ \<Rightarrow> Inl (ValueError DimNotInteger)))"

subsection \<open>shard\<close>

text \<open>
  Modelled from the spec: \<^verbatim>\<open>_parse_and_validate_remote_device\<close> of
  \<^verbatim>\<open>sharded_tensor/utils.py\<close>, not part of the sources at hand. The spec describes a
  function that parses a device-placement string or object into a pair of rank and device,
  validated against group membership: a rank outside \<open>[0, world size)\<close> is rejected.
\<close>

definition validate_remote_device :: "dist_env \<Rightarrow> nat \<Rightarrow> remote_device \<Rightarrow> error + int \<times> string option" where
  "validate_remote_device env pg rd =
     (if rd_rank rd < 0 \<or> rd_rank rd \<ge> get_world_size env pg
      then Inl (ValueError (InvalidRank (rd_rank rd)))
      else Inr (rd_rank rd, rd_device rd))"

definition parse_and_validate_remote_device ::
  "dist_env \<Rightarrow> nat option \<Rightarrow> remote_device_or_str \<Rightarrow> error + int \<times> string option" where
  "parse_and_validate_remote_device env process_group p =
     (case p of
        RemoteDevice rd \<Rightarrow> validate_remote_device env (resolve_group env process_group) rd
      | PlacementStr s \<Rightarrow>
          (case remote_device_ctor env s of
             Inl e \<Rightarrow> Inl e
           | Inr rd \<Rightarrow> validate_remote_device env (resolve_group env process_group) rd))"

text \<open>The rank that the loop of \<^verbatim>\<open>shard\<close> compares with the caller's, for one descriptor.\<close>

definition resolved_rank :: "dist_env \<Rightarrow> nat option \<Rightarrow> ShardMetadata \<Rightarrow> error + int" where
  "resolved_rank env process_group shard_meta =
     map_sum id fst (parse_and_validate_remote_device env process_group (placement shard_meta))"

text \<open>
  The chain \<^verbatim>\<open>local_tensor.narrow(idx, start, length).clone().detach().contiguous()\<close> of the
  tensor library, as one step: \<^verbatim>\<open>narrow\<close> rejects a range outside the dimension, \<^verbatim>\<open>clone\<close>
  allocates a storage of its own, \<^verbatim>\<open>detach\<close> gives a tensor outside the autograd graph
  that does not require gradients, and \<^verbatim>\<open>contiguous\<close> keeps it. The result is a new
  tensor object, whose element at a coordinate is the element of \<open>local_tensor\<close> at that
  coordinate moved by \<open>start\<close> along dimension \<open>idx\<close>.
\<close>

definition narrow_clone_detach_contiguous ::
  "nat \<Rightarrow> nat \<Rightarrow> int \<Rightarrow> int \<Rightarrow> state \<Rightarrow> (error + nat) \<times> state" where
  "narrow_clone_detach_contiguous local_tensor idx start len st =
     (let t = tensors st local_tensor in
      if idx < length (tensor_size t) \<and> 0 \<le> start \<and> 0 \<le> len
         \<and> start + len \<le> tensor_size t ! idx
      then
        (Inr (next_tensor st),
         st\<lparr>tensors := (tensors st)(next_tensor st :=
                t\<lparr>tensor_size := (tensor_size t)[idx := len],
                  tensor_elems := (\<lambda>p. tensor_elems t (p[idx := p ! idx + start])),
                  tensor_storage := next_storage st,
                  tensor_requires_grad := False,
                  tensor_grad_fn := None\<rparr>),
            next_tensor := Suc (next_tensor st),
            next_storage := Suc (next_storage st)\<rparr>)
      else (Inl (RuntimeError ''narrow: start and length out of range''), st))"

text \<open>
  The inner loop \<^verbatim>\<open>for idx, (offset, size) in enumerate(zip(shard_offsets, shard_sizes))\<close>.
  \<open>tensor\<close> is the argument of \<^verbatim>\<open>shard\<close>, whose size is compared, and \<open>local_tensor\<close> the
  variable that starts as \<^verbatim>\<open>tensor\<close> and is rebound only when a dimension is narrowed.
\<close>

fun narrow_loop ::
  "nat \<Rightarrow> ShardMetadata \<Rightarrow> (nat \<times> int \<times> int) list \<Rightarrow> nat \<Rightarrow> state \<Rightarrow> (error + nat) \<times> state" where
  "narrow_loop tensor shard_meta [] local_tensor st = (Inr local_tensor, st)"
| "narrow_loop tensor shard_meta ((idx, offset, sz) # rest) local_tensor st =
     (if idx < length (tensor_size (tensors st tensor)) then
        if sz < tensor_size (tensors st tensor) ! idx then
          (case narrow_clone_detach_contiguous local_tensor idx
                  (shard_offsets shard_meta ! idx) (shard_sizes shard_meta ! idx) st of
             (Inl e, st') \<Rightarrow> (Inl e, st')
           | (Inr local_tensor', st') \<Rightarrow> narrow_loop tensor shard_meta rest local_tensor' st')
        else narrow_loop tensor shard_meta rest local_tensor st
      else (Inl IndexError, st))"

text \<open>
  The assignment \<^verbatim>\<open>local_tensor.requires_grad = value\<close>. The tensor library lets the flag
  of a leaf be set and raises \<^verbatim>\<open>RuntimeError\<close> for any other tensor, whatever the value.
  (It also refuses \<^verbatim>\<open>True\<close> for a dtype that is not differentiable; the value assigned
  here is the flag of a tensor of the same dtype.)
\<close>

definition set_requires_grad :: "nat \<Rightarrow> bool \<Rightarrow> state \<Rightarrow> error + state" where
  "set_requires_grad local_tensor v st =
     (if tensor_grad_fn (tensors st local_tensor) \<noteq> None
      then Inl (RuntimeError ''you can only change requires_grad flags of leaf variables.'')
      else Inr (st\<lparr>tensors := (tensors st)(local_tensor :=
                     (tensors st local_tensor)\<lparr>tensor_requires_grad := v\<rparr>)\<rparr>))"

text \<open>The loop \<^verbatim>\<open>for shard_meta in tensor_meta.shards_metadata\<close> with \<^verbatim>\<open>local_shards\<close>.\<close>

fun shard_loop ::
  "dist_env \<Rightarrow> nat option \<Rightarrow> int \<Rightarrow> nat \<Rightarrow> ShardMetadata list \<Rightarrow> Shard list \<Rightarrow> state \<Rightarrow>
   (error + Shard list) \<times> state" where
  "shard_loop env process_group current_rank tensor [] local_shards st = (Inr local_shards, st)"
| "shard_loop env process_group current_rank tensor (shard_meta # rest) local_shards st =
     (case parse_and_validate_remote_device env process_group (placement shard_meta) of
        Inl e \<Rightarrow> (Inl e, st)
      | Inr (rank, device) \<Rightarrow>
          if rank = current_rank then
            (case narrow_loop tensor shard_meta
                    (enumerate 0 (zip (shard_offsets shard_meta) (shard_sizes shard_meta)))
                    tensor st of
               (Inl e, st') \<Rightarrow> (Inl e, st')
             | (Inr local_tensor, st') \<Rightarrow>
                 (case set_requires_grad local_tensor
                         (tensor_requires_grad (tensors st' tensor)) st' of
                    Inl e \<Rightarrow> (Inl e, st')
                  | Inr st'' \<Rightarrow>
                      shard_loop env process_group current_rank tensor rest
                        (local_shards @ [\<lparr>shard_tensor = local_tensor, metadata = shard_meta\<rparr>])
                        st''))
          else shard_loop env process_group current_rank tensor rest local_shards st)"

text \<open>The \<^verbatim>\<open>TensorProperties\<close> that \<^verbatim>\<open>shard\<close> captures from its tensor.\<close>

definition tensor_properties_of :: "tensor_obj \<Rightarrow> TensorProperties" where
  "tensor_properties_of t =
     \<lparr>dtype = tensor_dtype t, layout = tensor_layout t,
      requires_grad = tensor_requires_grad t,
      memory_format = ''torch.contiguous_format'',
      pin_memory = tensor_is_pinned t\<rparr>"

text \<open>
  \<^verbatim>\<open>dist.broadcast(tensor, src=src_rank, group=process_group)\<close> when the transport completes
  it: on the source rank the tensor keeps its elements, on any other rank they are
  overwritten in place by the ones delivered.
\<close>

definition broadcast_received :: "dist_env \<Rightarrow> int \<Rightarrow> nat \<Rightarrow> int \<Rightarrow> state \<Rightarrow> state" where
  "broadcast_received env current_rank tensor src_rank st =
     (if current_rank = src_rank then st
      else st\<lparr>tensors := (tensors st)(tensor :=
                (tensors st tensor)\<lparr>tensor_elems := broadcast_payload env\<rparr>)\<rparr>)"

text \<open>
  \<^verbatim>\<open>ChunkShardingSpec.shard\<close>. The broadcast is recorded in \<open>collectives\<close> when it is
  issued; the transport may fail it.
\<close>

definition shard ::
  "dist_env \<Rightarrow> ChunkShardingSpec \<Rightarrow> nat \<Rightarrow> int \<Rightarrow> nat option \<Rightarrow> state \<Rightarrow>
   (error + ShardedTensor) \<times> state" where
  "shard env self tensor src_rank process_group st =
     (let t = tensors st tensor;
          props = tensor_properties_of t
      in case build_metadata env st self (tensor_size t) props process_group of
           Inl e \<Rightarrow> (Inl e, st)
         | Inr tensor_meta \<Rightarrow>
             (let current_rank = get_rank env (resolve_group env process_group);
                  st1 = st\<lparr>collectives :=
                             collectives st @ [Broadcast tensor src_rank process_group]\<rparr>
              in case broadcast_failure env of
                   Some e \<Rightarrow> (Inl e, st1)
                 | None \<Rightarrow>
                     (case shard_loop env process_group current_rank tensor
                             (shards_metadata tensor_meta) []
                             (broadcast_received env current_rank tensor src_rank st1) of
                        (Inl e, st2) \<Rightarrow> (Inl e, st2)
                      | (Inr collected, st2) \<Rightarrow>
                          (Inr ((init_from_local_shards collected (tensor_size t) process_group)
                                  \<lparr>sharding_spec := Some self\<rparr>),
                           st2))))"

section \<open>EnumerableShardingSpec\<close>

record EnumerableShardingSpec =
  shards :: "ShardMetadata list"

text \<open>
  The loop of \<^verbatim>\<open>__post_init__\<close> that compares the number of offsets of each shard with
  that of the shard before it; \<open>rank\<close> starts as \<open>-1\<close>.
\<close>

fun check_ranks :: "int \<Rightarrow> ShardMetadata list \<Rightarrow> error option" where
  "check_ranks rank [] = None"
| "check_ranks rank (s # rest) =
     (if rank \<noteq> - 1 \<and> rank \<noteq> int (length (shard_offsets s))
      then Some (ValueError (InconsistentRanks rank (int (length (shard_offsets s)))))
      else check_ranks (int (length (shard_offsets s))) rest)"

text \<open>
  Modelled from the spec: \<^verbatim>\<open>validate_non_overlapping_shards_metadata\<close> of
  \<^verbatim>\<open>sharding_spec/_internals.py\<close>, not part of the sources at hand; in the spec
  \<^verbatim>\<open>checkNoOverlap\<close>, which fails when any two shard boxes intersect and may compare
  the boxes pairwise. Two boxes intersect when in every dimension the half-open intervals
  \<open>[offset, offset + size)\<close> do.
\<close>

definition boxes_intersect :: "ShardMetadata \<Rightarrow> ShardMetadata \<Rightarrow> bool" where
  "boxes_intersect s1 s2 =
     list_all2 (\<lambda>(o1, z1) (o2, z2). max o1 o2 < min (o1 + z1) (o2 + z2))
       (zip (shard_offsets s1) (shard_sizes s1)) (zip (shard_offsets s2) (shard_sizes s2))"

fun validate_non_overlapping_shards_metadata :: "ShardMetadata list \<Rightarrow> error option" where
  "validate_non_overlapping_shards_metadata [] = None"
| "validate_non_overlapping_shards_metadata (s # rest) =
     (if list_ex (boxes_intersect s) rest then Some (ValueError ShardsOverlap)
      else validate_non_overlapping_shards_metadata rest)"

text \<open>\<^verbatim>\<open>EnumerableShardingSpec.__post_init__\<close>.\<close>

definition EnumerableShardingSpec_init :: "ShardMetadata list \<Rightarrow> error + EnumerableShardingSpec" where
  "EnumerableShardingSpec_init shard_list =
     (if length shard_list = 0 then Inl (ValueError EmptyShardList)
      else
        (case check_ranks (- 1) shard_list of
           Some e \<Rightarrow> Inl e
         | None \<Rightarrow>
             (case validate_non_overlapping_shards_metadata shard_list of
                Some e \<Rightarrow> Inl e
              | None \<Rightarrow> Inr \<lparr>shards = shard_list\<rparr>)))"

text \<open>
  Modelled from the spec: \<^verbatim>\<open>check_tensor\<close> of \<^verbatim>\<open>sharding_spec/_internals.py\<close>, not part of
  the sources at hand; in the spec \<^verbatim>\<open>checkTensorCoverage\<close>, which fails when the shards do
  not exactly tile the global size. It verifies that every shard lies within bounds and,
  by a sweep over the coordinates of the global shape, that each coordinate belongs to
  one shard and no more.
\<close>

definition in_box :: "int list \<Rightarrow> ShardMetadata \<Rightarrow> bool" where
  "in_box p s =
     list_all2 (\<lambda>x (off, z). off \<le> x \<and> x < off + z) p (zip (shard_offsets s) (shard_sizes s))"

definition lies_within :: "ShardMetadata \<Rightarrow> int list \<Rightarrow> bool" where
  "lies_within s tensor_sizes =
     (length (shard_offsets s) = length (shard_sizes s)
      \<and> list_all2 (\<lambda>(off, z) g. 0 \<le> off \<and> off + z \<le> g)
          (zip (shard_offsets s) (shard_sizes s)) tensor_sizes)"

text \<open>The coordinates of a tensor of the given global shape, and the list of them all.\<close>

definition in_global :: "int list \<Rightarrow> int list \<Rightarrow> bool" where
  "in_global p tensor_sizes = list_all2 (\<lambda>x g. 0 \<le> x \<and> x < g) p tensor_sizes"

fun all_coords :: "int list \<Rightarrow> int list list" where
  "all_coords [] = [[]]"
| "all_coords (g # gs) = concat (map (\<lambda>x. map ((#) x) (all_coords gs)) [0..g - 1])"

definition check_tensor :: "ShardMetadata list \<Rightarrow> int list \<Rightarrow> error option" where
  "check_tensor shard_list tensor_sizes =
     (if list_all (\<lambda>s. lies_within s tensor_sizes) shard_list
         \<and> list_all (\<lambda>p. length (filter (in_box p) shard_list) = 1) (all_coords tensor_sizes)
      then None else Some (ValueError ShapeMismatch))"

text \<open>\<^verbatim>\<open>EnumerableShardingSpec.build_metadata\<close>.\<close>

definition Enumerable_build_metadata ::
  "EnumerableShardingSpec \<Rightarrow> int list \<Rightarrow> TensorProperties \<Rightarrow> nat option \<Rightarrow>
   error + ShardedTensorMetadata" where
  "Enumerable_build_metadata self tensor_sizes props process_group =
     (case check_tensor (shards self) tensor_sizes of
        Some e \<Rightarrow> Inl e
      | None \<Rightarrow>
          Inr \<lparr>shards_metadata = shards self, md_size = tensor_sizes,
               tensor_properties = props\<rparr>)"

text \<open>\<^verbatim>\<open>EnumerableShardingSpec.shard\<close>: the \<^verbatim>\<open>raise\<close> is its whole body.\<close>

definition Enumerable_shard ::
  "dist_env \<Rightarrow> EnumerableShardingSpec \<Rightarrow> nat \<Rightarrow> int \<Rightarrow> nat option \<Rightarrow> state \<Rightarrow>
   (error + ShardedTensor) \<times> state" where
  "Enumerable_shard env self tensor src_rank process_group st =
     (Inl (NotImplementedError ''EnumerableShardingSpec.shard not implemented yet!''), st)"

section \<open>The spec's formulas\<close>

text \<open>
  The descriptor that the spec lays down for placement \<open>i\<close>: every offset is zero except
  the one of the sharding dimension \<open>k\<close>, which is \<open>splitSize * i\<close>, and the sizes are the
  global sizes except in dimension \<open>k\<close>, where it is the chunk size.
\<close>

definition spec_chunk_descriptor ::
  "int list \<Rightarrow> nat \<Rightarrow> int \<Rightarrow> int \<Rightarrow> nat \<times> remote_device_or_str \<Rightarrow> ShardMetadata" where
  "spec_chunk_descriptor global_size k dim_size split_size ip =
     \<lparr>shard_offsets =
        map (\<lambda>j. if j = k then split_size * int (fst ip) else 0) [0..<length global_size],
      shard_sizes =
        map (\<lambda>j. if j = k then get_chunked_dim_size dim_size split_size (int (fst ip))
                  else global_size ! j) [0..<length global_size],
      placement = snd ip\<rparr>"

text \<open>
  The spec's count of descriptors, \<open>min(k, ceil(N / ceil(N/k)))\<close>, as it is written: a
  quotient by zero has no value.
\<close>

definition spec_ceil :: "int \<Rightarrow> int \<Rightarrow> int option" where
  "spec_ceil a b = (if b = 0 then None else Some (- ((- a) div b)))"

definition spec_descriptor_count :: "int \<Rightarrow> int \<Rightarrow> int option" where
  "spec_descriptor_count N k =
     (case spec_ceil N k of
        None \<Rightarrow> None
      | Some s \<Rightarrow> (case spec_ceil N s of None \<Rightarrow> None | Some c \<Rightarrow> Some (min k c)))"

text \<open>
  What it is for the local tensor of a shard to be the region of \<open>tensor\<close> that the
  shard's descriptor names: it has the descriptor's sizes, and its element at a coordinate
  is the element of \<open>tensor\<close> at that coordinate moved by the descriptor's offsets.
\<close>

definition holds_region :: "state \<Rightarrow> nat \<Rightarrow> Shard \<Rightarrow> bool" where
  "holds_region st tensor sh =
     (tensor_size (tensors st (shard_tensor sh)) = shard_sizes (metadata sh)
      \<and> (\<forall>p. in_global p (shard_sizes (metadata sh)) \<longrightarrow>
            tensor_elems (tensors st (shard_tensor sh)) p
              = tensor_elems (tensors st tensor) (map2 (+) p (shard_offsets (metadata sh)))))"

section \<open>Concrete inputs\<close>

text \<open>
  A process group of four ranks seen from rank 1, with a constructor of \<^verbatim>\<open>_remote_device\<close>
  that reads strings of the form \<^verbatim>\<open>rank:<digit>/<device>\<close>.
\<close>

definition digit_of :: "char \<Rightarrow> int option" where
  "digit_of c =
     (let n = (of_char c :: nat)
      in if 48 \<le> n \<and> n \<le> 57 then Some (int n - 48) else None)"

definition example_ctor :: "string \<Rightarrow> error + remote_device" where
  "example_ctor s =
     (if take 5 s = ''rank:'' \<and> length s > 6 \<and> s ! 6 = CHR ''/'' then
        (case digit_of (s ! 5) of
           Some r \<Rightarrow> Inr \<lparr>rd_rank = r, rd_device = Some (drop 7 s)\<rparr>
         | None \<Rightarrow> Inl (RuntimeError ''invalid remote device''))
      else Inl (RuntimeError ''invalid remote device''))"

definition example_env :: dist_env where
  "example_env =
     \<lparr>remote_device_ctor = example_ctor, default_group = 0, get_rank = (\<lambda>g. 1),
      get_world_size = (\<lambda>g. 4), broadcast_failure = None,
      broadcast_payload = (\<lambda>p. 100 + sum_list p)\<rparr>"

definition dev :: "int \<Rightarrow> remote_device_or_str" where
  "dev r = RemoteDevice \<lparr>rd_rank = r, rd_device = Some ''cpu''\<rparr>"

definition example_tensor :: "int list \<Rightarrow> tensor_obj" where
  "example_tensor sz =
     \<lparr>tensor_size = sz, tensor_elems = (\<lambda>p. 0), tensor_storage = 0,
      tensor_requires_grad = True,
      tensor_grad_fn = Some ''MulBackward0'', tensor_dtype = ''torch.float32'',
      tensor_layout = ''torch.strided'', tensor_is_pinned = False\<rparr>"

text \<open>
  A store with one tensor, at reference 0 and on storage 0, and the placements list \<open>ps\<close>
  at reference 0. The tensor of \<open>example_state\<close> is the result of a multiplication, the one
  of \<open>example_leaf_state\<close> is a leaf.
\<close>

definition example_leaf_state :: "remote_device_or_str list \<Rightarrow> int list \<Rightarrow> state" where
  "example_leaf_state ps sz =
     \<lparr>lists = (\<lambda>r. if r = 0 then ps else []),
      tensors = (\<lambda>r. (example_tensor sz)\<lparr>tensor_grad_fn := None\<rparr>),
      next_tensor = 1, next_storage = 1, collectives = []\<rparr>"

definition example_state :: "remote_device_or_str list \<Rightarrow> int list \<Rightarrow> state" where
  "example_state ps sz =
     \<lparr>lists = (\<lambda>r. if r = 0 then ps else []), tensors = (\<lambda>r. example_tensor sz),
      next_tensor = 1, next_storage = 1, collectives = []\<rparr>"

definition example_props :: TensorProperties where
  "example_props =
     \<lparr>dtype = ''torch.float32'', layout = ''torch.strided'', requires_grad = True,
      memory_format = ''torch.contiguous_format'', pin_memory = False\<rparr>"

section \<open>Properties of the chunk size calculator\<close>

lemma get_split_size_ceiling:
  "chunks \<noteq> 0 \<Longrightarrow>
     get_split_size dim_size chunks = Inr \<lceil>real_of_int dim_size / real_of_int chunks\<rceil>"
  by (simp add: get_split_size_def ceiling_divide_eq_div)

lemma split_size_nonneg:
  assumes "0 \<le> (d::int)" and "1 \<le> n"
  shows "0 \<le> - ((- d) div n)"
proof -
  have "(- d) div n \<le> 0"
    using assms by (simp add: div_nonpos_pos_le0)
  then show ?thesis by simp
qed

lemma split_size_covers:
  assumes "1 \<le> (n::int)"
  shows "d \<le> n * (- ((- d) div n))"
proof -
  have "n * ((- d) div n) \<le> - d"
    using assms pos_mod_sign [of n "- d"] mult_div_mod_eq [of n "- d"] by linarith
  then show ?thesis by simp
qed

lemma chunk_prefix_sum:
  assumes "0 \<le> d" and "0 \<le> s"
  shows "(\<Sum>i = 0..<int m. get_chunked_dim_size d s i) = min d (int m * s)"
proof (induction m)
  case 0
  then show ?case using assms by simp
next
  case (Suc m)
  have "{0..<int (Suc m)} = insert (int m) {0..<int m}"
    by auto
  then have "(\<Sum>i = 0..<int (Suc m). get_chunked_dim_size d s i)
      = get_chunked_dim_size d s (int m) + (\<Sum>i = 0..<int m. get_chunked_dim_size d s i)"
    by simp
  also have "\<dots> = get_chunked_dim_size d s (int m) + min d (int m * s)"
    using Suc.IH by simp
  also have "\<dots> = min d (int (Suc m) * s)"
    using assms by (auto simp: get_chunked_dim_size_def min_def max_def algebra_simps)
  finally show ?case .
qed

text \<open>
  C4. For every \<open>dimSize \<ge> 0\<close> and \<open>numChunks \<ge> 1\<close> the split size is the ceiling of
  \<open>dimSize / numChunks\<close>, the chunk sizes at the indices \<open>0, ..., numChunks - 1\<close> add up to
  \<open>dimSize\<close> exactly, and the chunk size at any index whatsoever is never negative.
\<close>

theorem chunk_sizes_sum_to_dim_size:
  assumes "0 \<le> dim_size" and "1 \<le> num_chunks"
  shows "get_split_size dim_size num_chunks
           = Inr \<lceil>real_of_int dim_size / real_of_int num_chunks\<rceil>
       \<and> (\<Sum>i = 0..<num_chunks.
             get_chunked_dim_size dim_size \<lceil>real_of_int dim_size / real_of_int num_chunks\<rceil> i)
           = dim_size
       \<and> 0 \<le> get_chunked_dim_size dim_size \<lceil>real_of_int dim_size / real_of_int num_chunks\<rceil> j"
proof -
  define s where "s = - ((- dim_size) div num_chunks)"
  have c: "\<lceil>real_of_int dim_size / real_of_int num_chunks\<rceil> = s"
    by (simp add: s_def ceiling_divide_eq_div)
  have s0: "0 \<le> s"
    unfolding s_def using assms by (rule split_size_nonneg)
  have cover: "dim_size \<le> num_chunks * s"
    unfolding s_def using assms(2) by (rule split_size_covers)
  have "(\<Sum>i = 0..<int (nat num_chunks). get_chunked_dim_size dim_size s i)
       = min dim_size (int (nat num_chunks) * s)"
    using assms(1) s0 by (rule chunk_prefix_sum)
  then have total: "(\<Sum>i = 0..<num_chunks. get_chunked_dim_size dim_size s i) = dim_size"
    using assms(2) cover by simp
  have split: "get_split_size dim_size num_chunks = Inr s"
    using assms(2) by (simp add: get_split_size_def s_def)
  have "0 \<le> get_chunked_dim_size dim_size s j"
    by (simp add: get_chunked_dim_size_def)
  with split total show ?thesis
    unfolding c by simp
qed

theorem chunk_sizes_sum_to_dim_size_witness:
  "get_split_size 10 3 = Inr 4
   \<and> (\<Sum>i = 0..<3. get_chunked_dim_size 10 4 i) = 10
   \<and> 0 \<le> get_chunked_dim_size 10 4 7"
proof -
  have c: "\<lceil>real_of_int 10 / real_of_int 3\<rceil> = (4::int)"
    by (simp add: ceiling_divide_eq_div)
  show ?thesis
    using chunk_sizes_sum_to_dim_size [of 10 3 7] unfolding c by simp
qed

section \<open>Metadata of the chunk variant\<close>


lemma replicate_update_map:
  "(replicate n (0::int))[k := v] = map (\<lambda>j. if j = k then v else 0) [0..<n]"
  by (rule nth_equalityI) auto

lemma list_update_map:
  "xs[k := v] = map (\<lambda>j. if j = k then v else xs ! j) [0..<length xs]"
  by (rule nth_equalityI) auto

lemma chunk_loop_eq:
  "chunk_loop ts d N s xs acc =
     acc @ map (spec_chunk_descriptor ts (py_index d (length ts)) N s)
             (filter (\<lambda>ip. 0 < get_chunked_dim_size N s (int (fst ip))) xs)"
proof (induction xs arbitrary: acc)
  case Nil
  then show ?case by simp
next
  case (Cons x xs)
  obtain idx p where x: "x = (idx, p)" by (cases x)
  show ?case
    unfolding x
    by (simp add: Cons.IH Let_def spec_chunk_descriptor_def replicate_update_map
        list_update_map [of ts])
qed

lemma build_metadata_in_range:
  assumes "dim self = IntDim d"
    and "- int (length ts) \<le> d" and "d < int (length ts)"
    and "lists st (placements self) \<noteq> []"
  shows "build_metadata env st self ts props pg =
     Inr \<lparr>shards_metadata =
            map (spec_chunk_descriptor ts (py_index d (length ts)) (ts ! py_index d (length ts))
                   (- ((- (ts ! py_index d (length ts))) div int (length (lists st (placements self))))))
              (filter (\<lambda>ip. 0 < get_chunked_dim_size (ts ! py_index d (length ts))
                    (- ((- (ts ! py_index d (length ts))) div int (length (lists st (placements self)))))
                    (int (fst ip)))
                (enumerate 0 (lists st (placements self)))),
          md_size = ts, tensor_properties = props\<rparr>"
  using assms
  by (simp add: build_metadata_def verify_dim_def get_split_size_def chunk_loop_eq Let_def)

lemma build_metadata_no_placements:
  assumes "dim self = IntDim d"
    and "- int (length ts) \<le> d" and "d < int (length ts)"
    and "lists st (placements self) = []"
  shows "build_metadata env st self ts props pg = Inl ZeroDivisionError"
  using assms
  by (simp add: build_metadata_def verify_dim_def get_split_size_def Let_def)

lemma map_fst_filter_enumerate:
  "map fst (filter (\<lambda>ip. P (fst ip)) (enumerate 0 ps)) = filter P [0..<length ps]"
proof -
  have "filter P (map fst (enumerate 0 ps)) = map fst (filter (P \<circ> fst) (enumerate 0 ps))"
    by (rule filter_map)
  then show ?thesis by (simp add: comp_def)
qed

lemma count_below:
  "0 \<le> c \<Longrightarrow> length (filter (\<lambda>i. int i < c) [0..<k]) = nat (min (int k) c)"
  by (induction k) auto

lemma int_div_less_iff:
  assumes "1 \<le> (s::int)"
  shows "x div s < y \<longleftrightarrow> x < y * s"
proof
  assume "x div s < y"
  then have "x div s + 1 \<le> y" by simp
  then have "s * (x div s + 1) \<le> s * y"
    using assms by (intro mult_left_mono) auto
  moreover have "x < s * (x div s) + s"
    using pos_mod_bound [of s x] mult_div_mod_eq [of s x] assms by linarith
  ultimately show "x < y * s" by (simp add: algebra_simps)
next
  assume "x < y * s"
  moreover have "s * (x div s) \<le> x"
    using pos_mod_sign [of s x] mult_div_mod_eq [of s x] assms by linarith
  ultimately have "s * (x div s) < s * y" by (simp add: algebra_simps)
  then show "x div s < y"
    using assms by (simp add: mult_less_cancel_left_pos)
qed

lemma chunk_positive_iff:
  assumes "1 \<le> s"
  shows "0 < get_chunked_dim_size N s i \<longleftrightarrow> i < - ((- N) div s)"
proof -
  have "i < - ((- N) div s) \<longleftrightarrow> (- N) div s < - i" by auto
  also have "\<dots> \<longleftrightarrow> - N < (- i) * s"
    using assms by (rule int_div_less_iff)
  also have "\<dots> \<longleftrightarrow> 0 < N - i * s" by auto
  finally show ?thesis
    using assms by (auto simp: get_chunked_dim_size_def)
qed

lemma descriptor_count:
  assumes "1 \<le> s"
  shows "int (length (filter (\<lambda>ip. 0 < get_chunked_dim_size N s (int (fst ip))) (enumerate 0 ps)))
           = min (int (length ps)) (max 0 (- ((- N) div s)))"
proof -
  let ?c = "max 0 (- ((- N) div s))"
  have "length (filter (\<lambda>ip. 0 < get_chunked_dim_size N s (int (fst ip))) (enumerate 0 ps))
      = length (filter (\<lambda>i. 0 < get_chunked_dim_size N s (int i)) [0..<length ps])"
    using map_fst_filter_enumerate [of "\<lambda>i. 0 < get_chunked_dim_size N s (int i)" ps]
    by (metis length_map)
  also have "\<dots> = length (filter (\<lambda>i. int i < - ((- N) div s)) [0..<length ps])"
    using assms by (simp add: chunk_positive_iff)
  also have "\<dots> = length (filter (\<lambda>i. int i < ?c) [0..<length ps])"
  proof -
    have "\<And>i::nat. int i < ?c \<longleftrightarrow> int i < - ((- N) div s)" by auto
    then show ?thesis by simp
  qed
  also have "\<dots> = nat (min (int (length ps)) ?c)"
    by (rule count_below) simp
  finally show ?thesis by simp
qed

lemma sorted_wrt_filter_enumerate:
  "sorted_wrt (\<lambda>x y. fst x < fst y) (filter P (enumerate 0 ps))"
proof -
  have "sorted_wrt (\<lambda>x y. fst x < fst y) (enumerate 0 ps)"
    using sorted_wrt_map [of "(<)" fst "enumerate 0 ps"] by simp
  then show ?thesis
    by (rule sorted_wrt_filter)
qed

lemma chunk_le_split: "0 \<le> s \<Longrightarrow> get_chunked_dim_size N s i \<le> s"
  by (simp add: get_chunked_dim_size_def)

lemma descriptors_disjoint:
  assumes s0: "0 \<le> s" and k: "k < length ts"
    and ab: "a < b" "b < length sm"
    and sm: "sm = map (spec_chunk_descriptor ts k N s)
              (filter (\<lambda>ip. 0 < get_chunked_dim_size N s (int (fst ip))) (enumerate 0 ps))"
  shows "shard_offsets (sm ! a) ! k + shard_sizes (sm ! a) ! k \<le> shard_offsets (sm ! b) ! k"
proof -
  let ?fs = "filter (\<lambda>ip. 0 < get_chunked_dim_size N s (int (fst ip))) (enumerate 0 ps)"
  have len: "b < length ?fs" "a < length ?fs"
    using ab sm by auto
  have "fst (?fs ! a) < fst (?fs ! b)"
    using sorted_wrt_filter_enumerate ab(1) len(1) by (rule sorted_wrt_nth_less)
  then have "int (fst (?fs ! a)) + 1 \<le> int (fst (?fs ! b))"
    by simp
  then have "s * (int (fst (?fs ! a)) + 1) \<le> s * int (fst (?fs ! b))"
    using s0 by (rule mult_left_mono)
  moreover have "get_chunked_dim_size N s (int (fst (?fs ! a))) \<le> s"
    using s0 by (rule chunk_le_split)
  ultimately have "s * int (fst (?fs ! a)) + get_chunked_dim_size N s (int (fst (?fs ! a)))
      \<le> s * int (fst (?fs ! b))"
    by (simp add: algebra_simps)
  then show ?thesis
    using len k by (simp add: sm spec_chunk_descriptor_def)
qed

text \<open>
  C2, as amended. For a spec whose dimension \<open>d\<close> is in range for the global shape and
  whose placement list is not empty, \<^verbatim>\<open>build_metadata\<close> returns the metadata whose
  descriptors are, in the order of the placement list, one descriptor for each index \<open>i\<close>
  whose chunk size is positive and none for the others; the descriptor of index \<open>i\<close> has
  every offset zero except \<open>splitSize * i\<close> in the sharding dimension, and the global sizes
  except the chunk size in the sharding dimension. For an empty placement list the split
  size is a quotient by zero: \<^verbatim>\<open>build_metadata\<close> raises \<^verbatim>\<open>ZeroDivisionError\<close> and returns
  no metadata.
\<close>

theorem build_metadata_emits_chunk_descriptors:
  assumes "dim self = IntDim d"
    and "- int (length ts) \<le> d" and "d < int (length ts)"
  shows "let ps = lists st (placements self);
             k = py_index d (length ts);
             N = ts ! k;
             s = \<lceil>real_of_int N / real_of_int (int (length ps))\<rceil>
         in (ps \<noteq> [] \<longrightarrow>
               build_metadata env st self ts props pg =
                 Inr \<lparr>shards_metadata =
                        map (spec_chunk_descriptor ts k N s)
                          (filter (\<lambda>ip. 0 < get_chunked_dim_size N s (int (fst ip)))
                             (enumerate 0 ps)),
                      md_size = ts, tensor_properties = props\<rparr>)
            \<and> (ps = [] \<longrightarrow> build_metadata env st self ts props pg = Inl ZeroDivisionError)"
  unfolding Let_def ceiling_divide_eq_div
  using build_metadata_in_range [OF assms] build_metadata_no_placements [OF assms]
  by blast

theorem build_metadata_emits_chunk_descriptors_witness:
  "build_metadata example_env (example_state [dev 0, dev 1, dev 2, dev 3, dev 0] [2, 3])
     \<lparr>dim = IntDim (- 1), placements = 0\<rparr> [2, 3] example_props None =
   Inr \<lparr>shards_metadata =
          [\<lparr>shard_offsets = [0, 0], shard_sizes = [2, 1], placement = dev 0\<rparr>,
           \<lparr>shard_offsets = [0, 1], shard_sizes = [2, 1], placement = dev 1\<rparr>,
           \<lparr>shard_offsets = [0, 2], shard_sizes = [2, 1], placement = dev 2\<rparr>],
        md_size = [2, 3], tensor_properties = example_props\<rparr>
   \<and> build_metadata example_env (example_state [] [2, 3])
     \<lparr>dim = IntDim (- 1), placements = 0\<rparr> [2, 3] example_props None = Inl ZeroDivisionError"
  using build_metadata_emits_chunk_descriptors
    [of "\<lparr>dim = IntDim (- 1), placements = 0\<rparr>" "- 1" "[2, 3]"
        "example_state [dev 0, dev 1, dev 2, dev 3, dev 0] [2, 3]" example_env example_props None]
    build_metadata_emits_chunk_descriptors
    [of "\<lparr>dim = IntDim (- 1), placements = 0\<rparr>" "- 1" "[2, 3]"
        "example_state [] [2, 3]" example_env example_props None]
  by (simp add: example_state_def py_index_def spec_chunk_descriptor_def
      get_chunked_dim_size_def enumerate_eq_zip upt_rec [of 0] upt_rec [of 1] nth_Cons')

text \<open>
  C2 as stated fails for a spec with no placement: it is constructed, and for a shape in
  which its dimension is in range \<^verbatim>\<open>build_metadata\<close> raises \<^verbatim>\<open>ZeroDivisionError\<close> instead of
  returning metadata without descriptors.
\<close>

theorem build_metadata_empty_placements_counterexample:
  "fst (ChunkShardingSpec_init example_env (IntDim 0) 0 (example_state [] [8, 4]))
     = Inr \<lparr>dim = IntDim 0, placements = 0\<rparr>
   \<and> lists (snd (ChunkShardingSpec_init example_env (IntDim 0) 0 (example_state [] [8, 4]))) 0
     = []
   \<and> build_metadata example_env
       (snd (ChunkShardingSpec_init example_env (IntDim 0) 0 (example_state [] [8, 4])))
       \<lparr>dim = IntDim 0, placements = 0\<rparr> [8, 4] example_props None
     = Inl ZeroDivisionError"
  by (simp add: ChunkShardingSpec_init_def post_init_loop.simps build_metadata_def verify_dim_def
      example_state_def py_index_def get_split_size_def)

lemma spec_count_eq:
  assumes "1 \<le> N" and "1 \<le> k"
  shows "spec_descriptor_count N k
           = Some (min k (- ((- N) div (- ((- N) div k)))))"
    and "1 \<le> - ((- N) div k)"
proof -
  have "\<not> 0 < (- N) div k + 1"
  proof
    assume "0 < (- N) div k + 1"
    then have "0 \<le> (- N) div k" by simp
    then have "0 \<le> - N" using assms(2) by (simp add: pos_imp_zdiv_nonneg_iff)
    then show False using assms(1) by simp
  qed
  then show s1: "1 \<le> - ((- N) div k)" by simp
  then show "spec_descriptor_count N k = Some (min k (- ((- N) div (- ((- N) div k)))))"
    using assms(2) by (auto simp: spec_descriptor_count_def spec_ceil_def)
qed

lemma py_index_less:
  "- int n \<le> d \<Longrightarrow> d < int n \<Longrightarrow> py_index d n < n"
  by (auto simp: py_index_def)

text \<open>
  C3, as amended. For a non-empty placement list of length \<open>k\<close> and a sharded dimension of
  size \<open>N \<ge> 1\<close> the number of descriptors is \<open>min(k, ceil(N / ceil(N/k)))\<close>; for \<open>N = 0\<close>,
  where that quotient has no value, no descriptor is emitted; and for every \<open>N \<ge> 0\<close> an
  earlier descriptor's range \<open>[offset, offset + size)\<close> on the sharded dimension ends
  before a later one's begins.
\<close>

theorem chunk_descriptor_count_and_disjointness:
  assumes "dim self = IntDim d"
    and "- int (length ts) \<le> d" and "d < int (length ts)"
    and "lists st (placements self) \<noteq> []"
    and "0 \<le> ts ! py_index d (length ts)"
  shows "\<exists>md. build_metadata env st self ts props pg = Inr md
      \<and> (1 \<le> ts ! py_index d (length ts) \<longrightarrow>
            spec_descriptor_count (ts ! py_index d (length ts))
                (int (length (lists st (placements self))))
              = Some (int (length (shards_metadata md))))
      \<and> (ts ! py_index d (length ts) = 0 \<longrightarrow> shards_metadata md = [])
      \<and> (\<forall>a b. a < b \<and> b < length (shards_metadata md) \<longrightarrow>
            shard_offsets (shards_metadata md ! a) ! py_index d (length ts)
              + shard_sizes (shards_metadata md ! a) ! py_index d (length ts)
            \<le> shard_offsets (shards_metadata md ! b) ! py_index d (length ts))"
proof -
  define ps where "ps = lists st (placements self)"
  define k where "k = py_index d (length ts)"
  define N where "N = ts ! k"
  define s where "s = - ((- N) div int (length ps))"
  define sm where "sm = map (spec_chunk_descriptor ts k N s)
      (filter (\<lambda>ip. 0 < get_chunked_dim_size N s (int (fst ip))) (enumerate 0 ps))"
  have K: "1 \<le> int (length ps)"
    using assms(4) by (cases ps) (auto simp: ps_def)
  have N0: "0 \<le> N"
    using assms(5) by (simp add: N_def k_def)
  have s0: "0 \<le> s"
    unfolding s_def using N0 K by (rule split_size_nonneg)
  have kl: "k < length ts"
    unfolding k_def using assms(2,3) by (rule py_index_less)
  have md: "build_metadata env st self ts props pg =
      Inr \<lparr>shards_metadata = sm, md_size = ts, tensor_properties = props\<rparr>"
    using build_metadata_in_range [OF assms(1-4)]
    by (simp add: sm_def s_def N_def k_def ps_def)
  have count: "spec_descriptor_count N (int (length ps)) = Some (int (length sm))" if "1 \<le> N"
  proof -
    have s1: "1 \<le> s"
      unfolding s_def using that K by (rule spec_count_eq(2))
    have c1: "1 \<le> - ((- N) div s)"
      using that s1 by (rule spec_count_eq(2))
    have "int (length sm) = min (int (length ps)) (max 0 (- ((- N) div s)))"
      unfolding sm_def using s1 by (simp add: descriptor_count)
    also have "\<dots> = min (int (length ps)) (- ((- N) div s))"
      using c1 by simp
    finally show ?thesis
      using spec_count_eq(1) [OF that K] by (simp add: s_def)
  qed
  have none: "sm = []" if "N = 0"
    using that by (simp add: sm_def s_def get_chunked_dim_size_def)
  have disj: "shard_offsets (sm ! a) ! k + shard_sizes (sm ! a) ! k \<le> shard_offsets (sm ! b) ! k"
    if "a < b" "b < length sm" for a b
    using s0 kl that sm_def by (rule descriptors_disjoint)
  show ?thesis
    using md count none disj by (simp add: N_def k_def ps_def)
qed

theorem chunk_descriptor_count_and_disjointness_witness:
  "\<exists>md. build_metadata example_env (example_state [dev 0, dev 1, dev 2] [10])
           \<lparr>dim = IntDim 0, placements = 0\<rparr> [10] example_props None = Inr md
      \<and> spec_descriptor_count 10 3 = Some (int (length (shards_metadata md)))
      \<and> (\<forall>a b. a < b \<and> b < length (shards_metadata md) \<longrightarrow>
            shard_offsets (shards_metadata md ! a) ! 0 + shard_sizes (shards_metadata md ! a) ! 0
            \<le> shard_offsets (shards_metadata md ! b) ! 0)"
  using chunk_descriptor_count_and_disjointness
    [of "\<lparr>dim = IntDim 0, placements = 0\<rparr>" 0 "[10]"
        "example_state [dev 0, dev 1, dev 2] [10]" example_env example_props None]
  by (simp add: example_state_def py_index_def)

text \<open>
  C3 as stated fails for a dimension of size 0 sharded over one placement: the code emits
  no descriptor, and the spec's count \<open>min(1, ceil(0 / ceil(0/1)))\<close> divides by zero.
\<close>

theorem descriptor_count_formula_counterexample:
  "build_metadata example_env (example_state [dev 0] [0])
       \<lparr>dim = IntDim 0, placements = 0\<rparr> [0] example_props None
     = Inr \<lparr>shards_metadata = [], md_size = [0], tensor_properties = example_props\<rparr>
   \<and> spec_descriptor_count 0 1 = None"
  by (simp add: build_metadata_def verify_dim_def example_state_def py_index_def
      get_split_size_def get_chunked_dim_size_def spec_descriptor_count_def spec_ceil_def)

section \<open>The shard operation\<close>

lemma narrow_step_collectives:
  "narrow_clone_detach_contiguous lt idx start len st = (r, st') \<Longrightarrow>
     collectives st' = collectives st \<and> lists st' = lists st"
  by (auto simp: narrow_clone_detach_contiguous_def Let_def split: if_splits)

lemma narrow_loop_collectives:
  "narrow_loop tensor m xs lt st = (r, st') \<Longrightarrow>
     collectives st' = collectives st \<and> lists st' = lists st"
proof (induction xs arbitrary: lt st)
  case Nil
  then show ?case by simp
next
  case (Cons x xs)
  obtain idx off sz where x: "x = (idx, off, sz)" by (cases x)
  show ?case
    using Cons.prems Cons.IH
    by (auto simp: x split: if_splits sum.splits prod.splits dest: narrow_step_collectives)
qed

lemma set_requires_grad_frame:
  assumes "set_requires_grad lt v st = Inr st'"
  shows "collectives st' = collectives st" and "lists st' = lists st"
    and "next_tensor st' = next_tensor st"
    and "tensor_size (tensors st' r) = tensor_size (tensors st r)"
    and "tensor_elems (tensors st' r) = tensor_elems (tensors st r)"
    and "tensor_grad_fn (tensors st' r) = tensor_grad_fn (tensors st r)"
  using assms by (auto simp: set_requires_grad_def split: if_splits)

lemma shard_loop_collectives:
  "shard_loop env pg cr tensor metas acc st = (r, st') \<Longrightarrow>
     collectives st' = collectives st \<and> lists st' = lists st"
proof (induction metas arbitrary: acc st)
  case Nil
  then show ?case by simp
next
  case (Cons m metas)
  show ?case
    using Cons.prems Cons.IH
    by (fastforce simp: Let_def split: if_splits sum.splits prod.splits
        dest: narrow_loop_collectives set_requires_grad_frame(1,2))
qed

lemma shard_loop_metadata:
  "shard_loop env pg cr tensor metas acc st = (Inr out, st') \<Longrightarrow>
     map metadata out
       = map metadata acc @ filter (\<lambda>m. resolved_rank env pg m = Inr cr) metas"
proof (induction metas arbitrary: acc st)
  case Nil
  then show ?case by simp
next
  case (Cons m metas)
  show ?case
  proof (cases "parse_and_validate_remote_device env pg (placement m)")
    case (Inl e)
    with Cons.prems show ?thesis by simp
  next
    case (Inr rd)
    obtain rank device where rd: "rd = (rank, device)" by (cases rd)
    show ?thesis
    proof (cases "rank = cr")
      case True
      with Cons.prems Inr rd obtain lt st1 where
        "shard_loop env pg cr tensor metas (acc @ [\<lparr>shard_tensor = lt, metadata = m\<rparr>]) st1
           = (Inr out, st')"
        by (auto simp: Let_def split: sum.splits prod.splits)
      then have "map metadata out
          = map metadata (acc @ [\<lparr>shard_tensor = lt, metadata = m\<rparr>])
            @ filter (\<lambda>m. resolved_rank env pg m = Inr cr) metas"
        by (rule Cons.IH)
      then show ?thesis
        using True Inr rd by (simp add: resolved_rank_def)
    next
      case False
      with Cons.prems Inr rd have
        "shard_loop env pg cr tensor metas acc st = (Inr out, st')"
        by simp
      then have "map metadata out
          = map metadata acc @ filter (\<lambda>m. resolved_rank env pg m = Inr cr) metas"
        by (rule Cons.IH)
      then show ?thesis
        using False Inr rd by (simp add: resolved_rank_def)
    qed
  qed
qed

lemma narrow_loop_skip:
  assumes "\<forall>(idx, off, sz) \<in> set xs.
      idx < length (tensor_size (tensors st tensor))
      \<and> \<not> sz < tensor_size (tensors st tensor) ! idx"
  shows "narrow_loop tensor m xs lt st = (Inr lt, st)"
  using assms by (induction xs) auto

lemma narrow_loop_append:
  "narrow_loop tensor m (xs @ ys) lt st =
     (case narrow_loop tensor m xs lt st of
        (Inl e, st1) \<Rightarrow> (Inl e, st1)
      | (Inr lt1, st1) \<Rightarrow> narrow_loop tensor m ys lt1 st1)"
proof (induction xs arbitrary: lt st)
  case Nil
  then show ?case by simp
next
  case (Cons x xs)
  obtain idx off sz where x: "x = (idx, off, sz)" by (cases x)
  show ?case
    unfolding x by (simp add: Cons.IH split: sum.splits prod.splits)
qed

lemma narrow_step_result:
  assumes "narrow_clone_detach_contiguous lt idx start len st = (Inr lt', st')"
  shows "lt' = next_tensor st" and "next_tensor st' = Suc (next_tensor st)"
    and "next_storage st' = Suc (next_storage st)"
    and "tensor_size (tensors st' lt') = (tensor_size (tensors st lt))[idx := len]"
    and "tensor_elems (tensors st' lt') p = tensor_elems (tensors st lt) (p[idx := p ! idx + start])"
    and "tensor_storage (tensors st' lt') = next_storage st"
    and "tensor_grad_fn (tensors st' lt') = None"
    and "\<not> tensor_requires_grad (tensors st' lt')"
    and "\<And>r. r \<noteq> next_tensor st \<Longrightarrow> tensors st' r = tensors st r"
  using assms
  by (auto simp: narrow_clone_detach_contiguous_def Let_def split: if_splits)

lemma narrow_loop_frame:
  "narrow_loop tensor m xs lt st = (r, st') \<Longrightarrow>
     next_tensor st \<le> next_tensor st' \<and> (\<forall>q < next_tensor st. tensors st' q = tensors st q)"
proof (induction xs arbitrary: lt st)
  case Nil
  then show ?case by simp
next
  case (Cons x xs)
  obtain idx off sz where x: "x = (idx, off, sz)" by (cases x)
  show ?case
  proof (cases "idx < length (tensor_size (tensors st tensor))
      \<and> sz < tensor_size (tensors st tensor) ! idx")
    case False
    with Cons.prems x have "narrow_loop tensor m xs lt st = (r, st') \<or> (r, st') = (Inl IndexError, st)"
      by (auto split: if_splits)
    then show ?thesis using Cons.IH by auto
  next
    case True
    show ?thesis
    proof (cases "narrow_clone_detach_contiguous lt idx (shard_offsets m ! idx)
        (shard_sizes m ! idx) st")
      case (Pair res st1)
      show ?thesis
      proof (cases res)
        case (Inl e)
        with Pair True Cons.prems x have "st' = st1" by simp
        moreover from Pair Inl have "st1 = st"
          by (auto simp: narrow_clone_detach_contiguous_def Let_def split: if_splits)
        ultimately show ?thesis by simp
      next
        case (Inr lt1)
        with Pair True Cons.prems x have rest: "narrow_loop tensor m xs lt1 st1 = (r, st')"
          by simp
        from Pair Inr have step: "narrow_clone_detach_contiguous lt idx (shard_offsets m ! idx)
            (shard_sizes m ! idx) st = (Inr lt1, st1)" by simp
        note f = narrow_step_result(2,9) [OF step]
        from Cons.IH [OF rest] f show ?thesis by auto
      qed
    qed
  qed
qed

lemma upt_split_at:
  assumes "k < n"
  shows "[0..<n] = [0..<k] @ k # [Suc k..<n]"
proof -
  have "[0..<k + (n - k)] = [0..<k] @ [k..<k + (n - k)]"
    by (rule upt_add_eq_append) simp
  then show ?thesis
    using assms by (simp add: upt_conv_Cons)
qed

lemma enumerate_zip_split:
  assumes "k < n" and "length offs = n" and "length szs = n"
  shows "enumerate 0 (zip offs szs) =
     map (\<lambda>j. (j, offs ! j, szs ! j)) [0..<k] @ (k, offs ! k, szs ! k)
       # map (\<lambda>j. (j, offs ! j, szs ! j)) [Suc k..<n]"
proof -
  have "enumerate 0 (zip offs szs) = map (\<lambda>j. (j, offs ! j, szs ! j)) [0..<n]"
    using assms(2,3) by (intro nth_equalityI) (auto simp: nth_enumerate_eq)
  then show ?thesis
    by (simp add: upt_split_at [OF assms(1)])
qed

lemma map2_add_single_offset:
  assumes "length p = n"
  shows "map2 (+) p ((replicate n (0::int))[k := off]) = p[k := p ! k + off]"
proof (rule nth_equalityI)
  show "length (map2 (+) p ((replicate n 0)[k := off])) = length (p[k := p ! k + off])"
    using assms by simp
next
  fix i
  assume "i < length (map2 (+) p ((replicate n 0)[k := off]))"
  then have i: "i < n" using assms by simp
  show "map2 (+) p ((replicate n 0)[k := off]) ! i = p[k := p ! k + off] ! i"
  proof (cases "i = k")
    case True
    then show ?thesis using i assms by simp
  next
    case False
    then show ?thesis using i assms by simp
  qed
qed

lemma narrow_loop_chunk:
  assumes T: "tensor_size (tensors st tensor) = T"
    and k: "k < length T"
    and offs: "shard_offsets m = (replicate (length T) 0)[k := off]"
    and szs: "shard_sizes m = T[k := c]"
    and c: "c < T ! k \<or> (c = T ! k \<and> off = 0)"
    and alloc: "tensor < next_tensor st"
    and run: "narrow_loop tensor m (enumerate 0 (zip (shard_offsets m) (shard_sizes m))) tensor st
        = (Inr lt, st')"
  shows "lt < next_tensor st'"
    and "tensor_size (tensors st' lt) = shard_sizes m"
    and "\<And>p. length p = length T \<Longrightarrow>
        tensor_elems (tensors st' lt) p
          = tensor_elems (tensors st tensor) (map2 (+) p (shard_offsets m))"
proof -
  let ?f = "\<lambda>j. (j, shard_offsets m ! j, shard_sizes m ! j)"
  let ?pre = "map ?f [0..<k]"
  let ?post = "map ?f [Suc k..<length T]"
  have split: "enumerate 0 (zip (shard_offsets m) (shard_sizes m))
      = ?pre @ (k, shard_offsets m ! k, shard_sizes m ! k) # ?post"
    using k by (intro enumerate_zip_split) (simp_all add: offs szs)
  have others: "\<not> shard_sizes m ! j < T ! j" if "j \<noteq> k" for j
    using that by (simp add: szs)
  have at_k: "shard_sizes m ! k = c" "shard_offsets m ! k = off"
    using k by (simp_all add: szs offs)
  have pre: "narrow_loop tensor m ?pre lt0 st0 = (Inr lt0, st0)"
    if "tensor_size (tensors st0 tensor) = T" for lt0 st0
    using that k others by (intro narrow_loop_skip) auto
  have post: "narrow_loop tensor m ?post lt0 st0 = (Inr lt0, st0)"
    if "tensor_size (tensors st0 tensor) = T" for lt0 st0
    using that k others by (intro narrow_loop_skip) auto
  have res: "lt < next_tensor st' \<and> tensor_size (tensors st' lt) = shard_sizes m
      \<and> (\<forall>p. length p = length T \<longrightarrow>
        tensor_elems (tensors st' lt) p
          = tensor_elems (tensors st tensor) (map2 (+) p (shard_offsets m)))"
  proof (cases "c < T ! k")
    case False
    with c have whole: "c = T ! k" "off = 0" by auto
    have "narrow_loop tensor m (?pre @ (k, shard_offsets m ! k, shard_sizes m ! k) # ?post)
        tensor st = (Inr tensor, st)"
      using k whole others by (intro narrow_loop_skip) (auto simp: T at_k)
    with run split have "lt = tensor" "st' = st" by simp_all
    moreover have "shard_sizes m = T"
      using whole by (simp add: szs)
    moreover have "map2 (+) p (shard_offsets m) = p" if "length p = length T" for p
      using that whole k by (simp add: offs map2_add_single_offset)
    ultimately show ?thesis
      using alloc T by simp
  next
    case True
    from run have "narrow_loop tensor m ((k, shard_offsets m ! k, shard_sizes m ! k) # ?post)
        tensor st = (Inr lt, st')"
      unfolding split by (simp add: narrow_loop_append pre [OF T])
    then obtain lt1 st1 where
      step: "narrow_clone_detach_contiguous tensor k off c st = (Inr lt1, st1)"
      and rest: "narrow_loop tensor m ?post lt1 st1 = (Inr lt, st')"
      using True k by (auto simp: T at_k split: sum.splits prod.splits)
    note f = narrow_step_result [OF step]
    have "tensors st1 tensor = tensors st tensor"
      using alloc by (intro f(9)) simp
    then have "tensor_size (tensors st1 tensor) = T"
      using T by simp
    from rest post [OF this] have fin: "lt = lt1" "st' = st1" by simp_all
    have "tensor_size (tensors st' lt) = shard_sizes m"
      using f(4) by (simp add: fin T szs)
    moreover have "tensor_elems (tensors st' lt) p
        = tensor_elems (tensors st tensor) (map2 (+) p (shard_offsets m))"
      if "length p = length T" for p
      using that f(5) [of p] by (simp add: fin offs map2_add_single_offset)
    moreover have "lt < next_tensor st'"
      using f(1,2) by (simp add: fin)
    ultimately show ?thesis by simp
  qed
  show "lt < next_tensor st'" and "tensor_size (tensors st' lt) = shard_sizes m"
    and "\<And>p. length p = length T \<Longrightarrow>
        tensor_elems (tensors st' lt) p
          = tensor_elems (tensors st tensor) (map2 (+) p (shard_offsets m))"
    using res by simp_all
qed

lemma holds_region_frame:
  assumes "holds_region st1 tensor sh"
    and "tensor_size (tensors st2 (shard_tensor sh)) = tensor_size (tensors st1 (shard_tensor sh))"
    and "tensor_elems (tensors st2 (shard_tensor sh)) = tensor_elems (tensors st1 (shard_tensor sh))"
    and "tensor_elems (tensors st2 tensor) = tensor_elems (tensors st1 tensor)"
  shows "holds_region st2 tensor sh"
  using assms by (simp add: holds_region_def)

lemma shard_step_regions:
  assumes narrow: "narrow_loop tensor m (enumerate 0 (zip (shard_offsets m) (shard_sizes m)))
        tensor st = (Inr lt, st1)"
    and setf: "set_requires_grad lt v st1 = Inr st2"
    and alloc: "tensor < next_tensor st"
    and T: "tensor_size (tensors st tensor) = T"
    and k: "k < length T"
    and offs: "shard_offsets m = (replicate (length T) 0)[k := off]"
    and szs: "shard_sizes m = T[k := c]"
    and c: "c < T ! k \<or> (c = T ! k \<and> off = 0)"
    and acc: "\<forall>sh \<in> set acc. shard_tensor sh < next_tensor st \<and> holds_region st tensor sh"
  shows "tensor < next_tensor st2"
    and "tensor_size (tensors st2 tensor) = T"
    and "\<forall>sh \<in> set (acc @ [\<lparr>shard_tensor = lt, metadata = m\<rparr>]).
           shard_tensor sh < next_tensor st2 \<and> holds_region st2 tensor sh"
proof -
  note fr = narrow_loop_frame [OF narrow]
  note sf = set_requires_grad_frame [OF setf]
  note ch = narrow_loop_chunk [OF T k offs szs c alloc narrow]
  have same: "tensors st1 q = tensors st q" if "q < next_tensor st" for q
    using fr that by simp
  show a2: "tensor < next_tensor st2"
    using alloc fr sf(3) by simp
  show "tensor_size (tensors st2 tensor) = T"
    using T same [OF alloc] sf(4) by simp
  have old: "shard_tensor sh < next_tensor st2 \<and> holds_region st2 tensor sh"
    if "sh \<in> set acc" for sh
  proof -
    from acc that have lt: "shard_tensor sh < next_tensor st" and h: "holds_region st tensor sh"
      by auto
    have "holds_region st2 tensor sh"
      using h by (rule holds_region_frame) (simp_all add: sf same [OF lt] same [OF alloc])
    then show ?thesis
      using lt fr sf(3) by simp
  qed
  have len: "length p = length T" if "in_global p (shard_sizes m)" for p
    using that by (auto simp: in_global_def szs dest: list_all2_lengthD)
  have "holds_region st2 tensor \<lparr>shard_tensor = lt, metadata = m\<rparr>"
    using ch(2) ch(3) [OF len] by (simp add: holds_region_def sf same [OF alloc])
  then show "\<forall>sh \<in> set (acc @ [\<lparr>shard_tensor = lt, metadata = m\<rparr>]).
           shard_tensor sh < next_tensor st2 \<and> holds_region st2 tensor sh"
    using old ch(1) sf(3) by auto
qed

lemma shard_loop_regions:
  assumes "shard_loop env pg cr tensor metas acc st = (Inr out, st')"
    and "tensor < next_tensor st"
    and "tensor_size (tensors st tensor) = T"
    and "k < length T"
    and "\<forall>m \<in> set metas. \<exists>off c.
           shard_offsets m = (replicate (length T) 0)[k := off] \<and> shard_sizes m = T[k := c]
           \<and> (c < T ! k \<or> (c = T ! k \<and> off = 0))"
    and "\<forall>sh \<in> set acc. shard_tensor sh < next_tensor st \<and> holds_region st tensor sh"
  shows "\<forall>sh \<in> set out. holds_region st' tensor sh"
  using assms
proof (induction metas arbitrary: acc st)
  case Nil
  then show ?case by simp
next
  case (Cons m metas)
  from Cons.prems(5) obtain off c where
    offs: "shard_offsets m = (replicate (length T) 0)[k := off]"
    and szs: "shard_sizes m = T[k := c]"
    and c: "c < T ! k \<or> (c = T ! k \<and> off = 0)"
    and rest: "\<forall>m \<in> set metas. \<exists>off c.
           shard_offsets m = (replicate (length T) 0)[k := off] \<and> shard_sizes m = T[k := c]
           \<and> (c < T ! k \<or> (c = T ! k \<and> off = 0))"
    by auto
  show ?case
  proof (cases "parse_and_validate_remote_device env pg (placement m)")
    case (Inl e)
    with Cons.prems(1) show ?thesis by simp
  next
    case (Inr rd)
    obtain rank device where rd: "rd = (rank, device)" by (cases rd)
    show ?thesis
    proof (cases "rank = cr")
      case False
      with Cons.prems(1) Inr rd have "shard_loop env pg cr tensor metas acc st = (Inr out, st')"
        by simp
      then show ?thesis
        using Cons.prems(2,3,4) rest Cons.prems(6) by (rule Cons.IH)
    next
      case True
      with Cons.prems(1) Inr rd obtain lt st1 st2 where
        narrow: "narrow_loop tensor m (enumerate 0 (zip (shard_offsets m) (shard_sizes m)))
            tensor st = (Inr lt, st1)"
        and setf: "set_requires_grad lt (tensor_requires_grad (tensors st1 tensor)) st1 = Inr st2"
        and loop: "shard_loop env pg cr tensor metas
            (acc @ [\<lparr>shard_tensor = lt, metadata = m\<rparr>]) st2 = (Inr out, st')"
        by (auto split: sum.splits prod.splits)
      note step = shard_step_regions
        [OF narrow setf Cons.prems(2,3,4) offs szs c Cons.prems(6)]
      show ?thesis
        using loop step(1,2) Cons.prems(4) rest step(3) by (rule Cons.IH)
    qed
  qed
qed

lemma chunk_whole_dimension:
  assumes "0 < get_chunked_dim_size N s (int i)"
  shows "get_chunked_dim_size N s (int i) \<le> N"
    and "get_chunked_dim_size N s (int i) = N \<Longrightarrow> s * int i = 0"
proof -
  from assms have s: "0 < s" and left: "0 < N - int i * s"
    and eq: "get_chunked_dim_size N s (int i) = min s (N - int i * s)"
    by (auto simp: get_chunked_dim_size_def max_def min_def split: if_splits)
  have nn: "0 \<le> int i * s"
    using s by simp
  show "get_chunked_dim_size N s (int i) \<le> N"
    using eq nn by simp
  show "s * int i = 0" if "get_chunked_dim_size N s (int i) = N"
    using that eq nn by (simp add: min_def mult.commute split: if_splits)
qed

lemma build_metadata_succeeds:
  assumes "build_metadata env st self ts props pg = Inr md"
  shows "\<exists>d. dim self = IntDim d \<and> - int (length ts) \<le> d \<and> d < int (length ts)
      \<and> lists st (placements self) \<noteq> []"
  using assms
  by (cases "dim self")
    (auto simp: build_metadata_def verify_dim_def get_split_size_def Let_def
      split: if_splits)

lemma build_metadata_chunk_like:
  assumes "build_metadata env st self ts props pg = Inr md"
  shows "\<exists>k < length ts. \<forall>m \<in> set (shards_metadata md). \<exists>off c.
           shard_offsets m = (replicate (length ts) 0)[k := off] \<and> shard_sizes m = ts[k := c]
           \<and> (c < ts ! k \<or> (c = ts ! k \<and> off = 0))"
proof -
  from build_metadata_succeeds [OF assms] obtain d where
    d: "dim self = IntDim d" "- int (length ts) \<le> d" "d < int (length ts)"
      "lists st (placements self) \<noteq> []"
    by auto
  define k where "k = py_index d (length ts)"
  define N where "N = ts ! k"
  define s where "s = - ((- N) div int (length (lists st (placements self))))"
  have k: "k < length ts"
    unfolding k_def using d(2,3) by (rule py_index_less)
  have md: "shards_metadata md = map (spec_chunk_descriptor ts k N s)
      (filter (\<lambda>ip. 0 < get_chunked_dim_size N s (int (fst ip)))
         (enumerate 0 (lists st (placements self))))"
    using build_metadata_in_range [OF d, of env props pg] assms
    by (auto simp: k_def N_def s_def)
  have "\<exists>off c. shard_offsets m = (replicate (length ts) 0)[k := off] \<and> shard_sizes m = ts[k := c]
           \<and> (c < ts ! k \<or> (c = ts ! k \<and> off = 0))"
    if "m \<in> set (shards_metadata md)" for m
  proof -
    from that md obtain ip where m: "m = spec_chunk_descriptor ts k N s ip"
      and pos: "0 < get_chunked_dim_size N s (int (fst ip))"
      by auto
    let ?c = "get_chunked_dim_size N s (int (fst ip))"
    have "shard_offsets m = (replicate (length ts) 0)[k := s * int (fst ip)]"
      by (simp add: m spec_chunk_descriptor_def replicate_update_map)
    moreover have "shard_sizes m = ts[k := ?c]"
      by (simp add: m spec_chunk_descriptor_def list_update_map [of ts])
    moreover have "?c < ts ! k \<or> (?c = ts ! k \<and> s * int (fst ip) = 0)"
      using chunk_whole_dimension [OF pos] by (auto simp: N_def)
    ultimately show ?thesis by blast
  qed
  with k show ?thesis by blast
qed

lemma build_metadata_rank_independent:
  "build_metadata (env\<lparr>get_rank := r\<rparr>) st self ts props pg
     = build_metadata env st self ts props pg"
  by (simp add: build_metadata_def Let_def)

lemma resolve_group_rank_independent:
  "resolve_group (env\<lparr>get_rank := r\<rparr>) pg = resolve_group env pg"
  by (simp add: resolve_group_def split: option.splits)

lemma resolved_rank_rank_independent:
  "resolved_rank (env\<lparr>get_rank := r\<rparr>) pg m = resolved_rank env pg m"
  by (simp add: resolved_rank_def parse_and_validate_remote_device_def
      validate_remote_device_def resolve_group_rank_independent
      split: remote_device_or_str.splits sum.splits)

lemma ChunkShardingSpec_init_fields:
  assumes "ChunkShardingSpec_init env dm ref st0 = (Inr self, st1)"
  shows "dim self = dm" and "placements self = ref" and "verify_dim dm = None"
  using assms
  by (auto simp: ChunkShardingSpec_init_def split: option.splits prod.splits)

lemma broadcast_received_frame:
  "collectives (broadcast_received env cr tensor src st) = collectives st"
  "next_tensor (broadcast_received env cr tensor src st) = next_tensor st"
  "tensor_size (tensors (broadcast_received env cr tensor src st) r) = tensor_size (tensors st r)"
  by (simp_all add: broadcast_received_def)

lemmas example_defs =
  shard_def build_metadata_def verify_dim_def example_state_def
  example_tensor_def example_env_def py_index_def get_split_size_def get_chunked_dim_size_def
  parse_and_validate_remote_device_def validate_remote_device_def resolve_group_def
  narrow_clone_detach_contiguous_def set_requires_grad_def broadcast_received_def
  init_from_local_shards_def dev_def tensor_properties_of_def Let_def

lemma example_shard_result:
  "fst (shard example_env \<lparr>dim = IntDim 0, placements = 0\<rparr> 0 0 None
          (example_state [dev 0, dev 1, dev 2, dev 3] [8, 4]))
   = Inr \<lparr>st_local_shards =
            [\<lparr>shard_tensor = 1,
              metadata = \<lparr>shard_offsets = [2, 0], shard_sizes = [2, 4], placement = dev 1\<rparr>\<rparr>],
          st_size = [8, 4], st_process_group = None,
          sharding_spec = Some \<lparr>dim = IntDim 0, placements = 0\<rparr>\<rparr>"
  by (simp add: example_defs)

text \<open>
  C1. When \<^verbatim>\<open>shard\<close> completes on a rank, for a tensor that is an object of the store,
  the descriptors of the shards in the returned handle are exactly the descriptors of the
  metadata whose placement resolves to the caller's rank, in the order of the metadata:
  none is missing and none of another rank is kept. The local tensor of each kept shard is
  that shard and no more: it has the sizes of its descriptor, and its element at every
  coordinate is the element of the broadcast tensor at that coordinate moved by the
  descriptor's offsets. Neither the metadata nor the rank a placement resolves to depends
  on the caller's rank, so every rank classifies the same list in the same way.
\<close>

theorem shard_keeps_exactly_own_shards:
  assumes "shard env self tensor src_rank pg st = (Inr h, st')"
    and "tensor < next_tensor st"
  shows "\<exists>md. build_metadata env st self (tensor_size (tensors st tensor))
                (tensor_properties_of (tensors st tensor)) pg = Inr md
      \<and> map metadata (st_local_shards h)
          = filter (\<lambda>m. resolved_rank env pg m = Inr (get_rank env (resolve_group env pg)))
              (shards_metadata md)
      \<and> (\<forall>sh \<in> set (st_local_shards h).
            tensor_size (tensors st' (shard_tensor sh)) = shard_sizes (metadata sh)
            \<and> (\<forall>p. in_global p (shard_sizes (metadata sh)) \<longrightarrow>
                  tensor_elems (tensors st' (shard_tensor sh)) p
                    = tensor_elems (tensors st' tensor)
                        (map2 (+) p (shard_offsets (metadata sh)))))
      \<and> (\<forall>r. build_metadata (env\<lparr>get_rank := r\<rparr>) st self (tensor_size (tensors st tensor))
                (tensor_properties_of (tensors st tensor)) pg = Inr md)
      \<and> (\<forall>r m. resolved_rank (env\<lparr>get_rank := r\<rparr>) pg m = resolved_rank env pg m)"
proof -
  let ?t = "tensors st tensor"
  let ?cr = "get_rank env (resolve_group env pg)"
  let ?st1 = "broadcast_received env ?cr tensor src_rank
      (st\<lparr>collectives := collectives st @ [Broadcast tensor src_rank pg]\<rparr>)"
  from assms(1) obtain md where
    md: "build_metadata env st self (tensor_size ?t) (tensor_properties_of ?t) pg = Inr md"
    by (auto simp: shard_def Let_def split: sum.splits)
  from assms(1) md obtain out where
    loop: "shard_loop env pg ?cr tensor (shards_metadata md) [] ?st1 = (Inr out, st')"
    and h: "h = (init_from_local_shards out (tensor_size ?t) pg)\<lparr>sharding_spec := Some self\<rparr>"
    by (auto simp: shard_def Let_def split: sum.splits option.splits prod.splits)
  have out: "st_local_shards h = out"
    by (simp add: h init_from_local_shards_def)
  have "map metadata out = map metadata ([] :: Shard list)
      @ filter (\<lambda>m. resolved_rank env pg m = Inr ?cr) (shards_metadata md)"
    using loop by (rule shard_loop_metadata)
  then have own: "map metadata (st_local_shards h)
      = filter (\<lambda>m. resolved_rank env pg m = Inr ?cr) (shards_metadata md)"
    by (simp add: out)
  from build_metadata_chunk_like [OF md] obtain k where
    k: "k < length (tensor_size ?t)"
    and like: "\<forall>m \<in> set (shards_metadata md). \<exists>off c.
        shard_offsets m = (replicate (length (tensor_size ?t)) 0)[k := off]
        \<and> shard_sizes m = (tensor_size ?t)[k := c]
        \<and> (c < tensor_size ?t ! k \<or> (c = tensor_size ?t ! k \<and> off = 0))"
    by blast
  have alloc1: "tensor < next_tensor ?st1"
    using assms(2) by (simp add: broadcast_received_frame)
  have size1: "tensor_size (tensors ?st1 tensor) = tensor_size ?t"
    by (simp add: broadcast_received_frame)
  have "\<forall>sh \<in> set out. holds_region st' tensor sh"
    using loop alloc1 size1 k like by (rule shard_loop_regions) simp
  then have regions: "\<forall>sh \<in> set (st_local_shards h).
      tensor_size (tensors st' (shard_tensor sh)) = shard_sizes (metadata sh)
      \<and> (\<forall>p. in_global p (shard_sizes (metadata sh)) \<longrightarrow>
            tensor_elems (tensors st' (shard_tensor sh)) p
              = tensor_elems (tensors st' tensor) (map2 (+) p (shard_offsets (metadata sh))))"
    by (simp add: out holds_region_def)
  show ?thesis
    using md own regions
    by (simp add: build_metadata_rank_independent resolved_rank_rank_independent)
qed

theorem shard_keeps_exactly_own_shards_witness:
  "(\<exists>md. build_metadata example_env (example_state [dev 0, dev 1, dev 2, dev 3] [8, 4])
           \<lparr>dim = IntDim 0, placements = 0\<rparr> [8, 4]
           (tensor_properties_of (example_tensor [8, 4])) None = Inr md
      \<and> [\<lparr>shard_offsets = [2, 0], shard_sizes = [2, 4], placement = dev 1\<rparr>]
          = filter (\<lambda>m. resolved_rank example_env None m = Inr 1) (shards_metadata md))
   \<and> tensor_size (tensors (snd (shard example_env \<lparr>dim = IntDim 0, placements = 0\<rparr> 0 0 None
          (example_state [dev 0, dev 1, dev 2, dev 3] [8, 4]))) 1) = [2, 4]
   \<and> tensor_elems (tensors (snd (shard example_env \<lparr>dim = IntDim 0, placements = 0\<rparr> 0 0 None
          (example_state [dev 0, dev 1, dev 2, dev 3] [8, 4]))) 1) [1, 3]
     = tensor_elems (tensors (snd (shard example_env \<lparr>dim = IntDim 0, placements = 0\<rparr> 0 0 None
          (example_state [dev 0, dev 1, dev 2, dev 3] [8, 4]))) 0) [3, 3]"
proof -
  let ?st = "example_state [dev 0, dev 1, dev 2, dev 3] [8, 4]"
  let ?self = "\<lparr>dim = IntDim 0, placements = 0\<rparr>"
  let ?m = "\<lparr>shard_offsets = [2, 0], shard_sizes = [2, 4], placement = dev 1\<rparr>"
  let ?sh = "\<lparr>shard_tensor = 1, metadata = ?m\<rparr>"
  let ?h = "\<lparr>st_local_shards = [?sh], st_size = [8, 4], st_process_group = None,
          sharding_spec = Some ?self\<rparr>"
  let ?st' = "snd (shard example_env ?self 0 0 None ?st)"
  have run: "shard example_env ?self 0 0 None ?st = (Inr ?h, ?st')"
    using example_shard_result by (simp add: prod_eq_iff)
  have alloc: "0 < next_tensor ?st"
    by (simp add: example_state_def)
  have size: "tensor_size (example_tensor [8, 4]) = [8, 4]"
    and t: "tensors ?st 0 = example_tensor [8, 4]"
    and rank: "get_rank example_env (resolve_group example_env None) = 1"
    by (simp_all add: example_state_def example_tensor_def example_env_def)
  from shard_keeps_exactly_own_shards [OF run alloc] obtain md where
    md: "build_metadata example_env ?st ?self [8, 4]
           (tensor_properties_of (example_tensor [8, 4])) None = Inr md"
    and own: "[?m] = filter (\<lambda>m. resolved_rank example_env None m = Inr 1) (shards_metadata md)"
    and reg: "tensor_size (tensors ?st' 1) = [2, 4]
      \<and> (\<forall>p. in_global p [2, 4] \<longrightarrow>
            tensor_elems (tensors ?st' 1) p = tensor_elems (tensors ?st' 0) (map2 (+) p [2, 0]))"
    unfolding t size rank by auto
  have "in_global [1, 3] [2, 4]"
    by (simp add: in_global_def)
  with reg have "tensor_elems (tensors ?st' 1) [1, 3]
      = tensor_elems (tensors ?st' 0) (map2 (+) [1, 3] [2, 0])"
    by blast
  then have "tensor_elems (tensors ?st' 1) [1, 3] = tensor_elems (tensors ?st' 0) [3, 3]"
    by simp
  with md own reg show ?thesis
    by blast
qed

text \<open>
  C6, as amended. Every error of metadata building (a named or non-integer dimension, a
  dimension out of range for the tensor, an empty placement list) is raised before the
  broadcast: \<^verbatim>\<open>shard\<close> returns that error, issues no collective call and leaves the state
  as it was. Once the metadata is built the broadcast is issued, whatever the loop over
  the shards then does; the placements are validated against the group only there.
\<close>

theorem shard_fails_before_broadcast:
  "(build_metadata env st self (tensor_size (tensors st tensor))
        (tensor_properties_of (tensors st tensor)) pg = Inl e
      \<longrightarrow> shard env self tensor src_rank pg st = (Inl e, st))
   \<and> (build_metadata env st self (tensor_size (tensors st tensor))
        (tensor_properties_of (tensors st tensor)) pg = Inr md
      \<longrightarrow> collectives (snd (shard env self tensor src_rank pg st))
          = collectives st @ [Broadcast tensor src_rank pg])"
proof (intro conjI impI)
  assume "build_metadata env st self (tensor_size (tensors st tensor))
        (tensor_properties_of (tensors st tensor)) pg = Inl e"
  then show "shard env self tensor src_rank pg st = (Inl e, st)"
    by (simp add: shard_def Let_def)
next
  let ?cr = "get_rank env (resolve_group env pg)"
  let ?st0 = "st\<lparr>collectives := collectives st @ [Broadcast tensor src_rank pg]\<rparr>"
  let ?st1 = "broadcast_received env ?cr tensor src_rank ?st0"
  let ?loop = "shard_loop env pg ?cr tensor (shards_metadata md) [] ?st1"
  assume md: "build_metadata env st self (tensor_size (tensors st tensor))
        (tensor_properties_of (tensors st tensor)) pg = Inr md"
  obtain r st2 where loop: "?loop = (r, st2)"
    by (cases ?loop)
  then have "collectives st2 = collectives ?st1"
    by (auto dest: shard_loop_collectives)
  then have "collectives st2 = collectives st @ [Broadcast tensor src_rank pg]"
    by (simp add: broadcast_received_frame)
  then show "collectives (snd (shard env self tensor src_rank pg st))
      = collectives st @ [Broadcast tensor src_rank pg]"
    using md loop by (simp add: shard_def Let_def split: option.splits sum.splits)
qed

theorem shard_fails_before_broadcast_witness:
  "shard example_env \<lparr>dim = IntDim 2, placements = 0\<rparr> 0 0 None
       (example_state [dev 0, dev 1] [8, 4])
     = (Inl (ValueError (InvalidShardingDim 2)), example_state [dev 0, dev 1] [8, 4])
   \<and> collectives (snd (shard example_env \<lparr>dim = IntDim 1, placements = 0\<rparr> 0 0 None
       (example_state [dev 0, dev 1] [8, 4])))
     = collectives (example_state [dev 0, dev 1] [8, 4]) @ [Broadcast 0 0 None]"
proof -
  let ?st = "example_state [dev 0, dev 1] [8, 4]"
  have fails: "build_metadata example_env ?st \<lparr>dim = IntDim 2, placements = 0\<rparr>
          (tensor_size (tensors ?st 0)) (tensor_properties_of (tensors ?st 0)) None
        = Inl (ValueError (InvalidShardingDim 2))"
    by (simp add: build_metadata_def verify_dim_def example_state_def example_tensor_def)
  have builds: "build_metadata example_env ?st \<lparr>dim = IntDim 1, placements = 0\<rparr>
          (tensor_size (tensors ?st 0)) (tensor_properties_of (tensors ?st 0)) None
        = Inr \<lparr>shards_metadata =
                 [\<lparr>shard_offsets = [0, 0], shard_sizes = [8, 2], placement = dev 0\<rparr>,
                  \<lparr>shard_offsets = [0, 2], shard_sizes = [8, 2], placement = dev 1\<rparr>],
               md_size = [8, 4], tensor_properties = tensor_properties_of (example_tensor [8, 4])\<rparr>"
    by (simp add: build_metadata_def verify_dim_def example_state_def example_tensor_def
        py_index_def get_split_size_def get_chunked_dim_size_def)
  show ?thesis
    using shard_fails_before_broadcast [THEN conjunct1, rule_format, OF fails]
      shard_fails_before_broadcast [THEN conjunct2, rule_format, OF builds]
    by (intro conjI)
qed

text \<open>
  C6 as stated fails for the validation of the placements against the process group, which
  \<^verbatim>\<open>shard\<close> performs in its loop, after the broadcast: with a placement on rank 7 in a
  group of four ranks the spec is constructed, the tensor is broadcast, and only then the
  invalid rank is reported.
\<close>

theorem shard_validates_placements_after_broadcast_counterexample:
  "fst (ChunkShardingSpec_init example_env (IntDim 0) 0
          (example_state [PlacementStr ''rank:1/cpu'', PlacementStr ''rank:7/cpu''] [8, 4]))
     = Inr \<lparr>dim = IntDim 0, placements = 0\<rparr>
   \<and> fst (shard example_env \<lparr>dim = IntDim 0, placements = 0\<rparr> 0 0 None
          (snd (ChunkShardingSpec_init example_env (IntDim 0) 0
             (example_state [PlacementStr ''rank:1/cpu'', PlacementStr ''rank:7/cpu''] [8, 4]))))
     = Inl (ValueError (InvalidRank 7))
   \<and> collectives (snd (shard example_env \<lparr>dim = IntDim 0, placements = 0\<rparr> 0 0 None
          (snd (ChunkShardingSpec_init example_env (IntDim 0) 0
             (example_state [PlacementStr ''rank:1/cpu'', PlacementStr ''rank:7/cpu''] [8, 4])))))
     = [Broadcast 0 0 None]"
  by (simp add: ChunkShardingSpec_init_def post_init_loop.simps example_ctor_def digit_of_def
      example_defs)

text \<open>
  C8. \<^verbatim>\<open>shard\<close> of an enumerable spec fails with \<^verbatim>\<open>NotImplementedError\<close> for every
  argument, and the state is the one it was called in: no metadata is built and no
  collective call is issued.
\<close>

theorem Enumerable_shard_not_implemented:
  "Enumerable_shard env self tensor src_rank pg st
     = (Inl (NotImplementedError ''EnumerableShardingSpec.shard not implemented yet!''), st)"
  by (simp add: Enumerable_shard_def)

text \<open>
  C9. A spec that was constructed holds an integer dimension \<open>d\<close>, which construction
  compared with no shape. For every global shape passed in, \<^verbatim>\<open>build_metadata\<close> raises
  \<^verbatim>\<open>ValueError\<close> for the dimension when \<open>d\<close>, normalised as a negative index, is outside
  \<open>[0, rank)\<close> of that shape, and raises no \<^verbatim>\<open>ValueError\<close> at all when it is inside.
\<close>

theorem build_metadata_revalidates_dim:
  assumes "ChunkShardingSpec_init env0 dm ref st0 = (Inr self, st1)"
  shows "\<exists>d. dim self = IntDim d \<and>
     (if 0 \<le> (if d < 0 then d + int (length ts) else d)
         \<and> (if d < 0 then d + int (length ts) else d) < int (length ts)
      then \<forall>reason. build_metadata env st self ts props pg \<noteq> Inl (ValueError reason)
      else build_metadata env st self ts props pg = Inl (ValueError (InvalidShardingDim d)))"
proof -
  have "dim self = dm" and v: "verify_dim dm = None"
    using assms by (rule ChunkShardingSpec_init_fields)+
  then obtain d where d: "dim self = IntDim d"
    by (cases dm) (auto simp: verify_dim_def)
  have "build_metadata env st self ts props pg = Inl (ValueError (InvalidShardingDim d))"
    if "d \<ge> int (length ts) \<or> d < - int (length ts)"
    using that d by (simp add: build_metadata_def verify_dim_def)
  moreover have "build_metadata env st self ts props pg \<noteq> Inl (ValueError reason)"
    if "\<not> (d \<ge> int (length ts) \<or> d < - int (length ts))" for reason
    using that d
    by (simp add: build_metadata_def verify_dim_def get_split_size_def Let_def)
  ultimately show ?thesis
    using d by auto
qed

theorem build_metadata_revalidates_dim_witness:
  "build_metadata example_env (example_state [dev 0, dev 1] [8, 4])
       \<lparr>dim = IntDim 2, placements = 0\<rparr> [8, 4] example_props None
     = Inl (ValueError (InvalidShardingDim 2))
   \<and> (\<forall>reason. build_metadata example_env (example_state [dev 0, dev 1] [8, 4, 6])
       \<lparr>dim = IntDim 2, placements = 0\<rparr> [8, 4, 6] example_props None
     \<noteq> Inl (ValueError reason))"
proof -
  have init: "ChunkShardingSpec_init example_env (IntDim 2) 0 (example_state [dev 0, dev 1] [8, 4])
      = (Inr \<lparr>dim = IntDim 2, placements = 0\<rparr>, example_state [dev 0, dev 1] [8, 4])"
    by (simp add: ChunkShardingSpec_init_def verify_dim_def post_init_loop.simps
        example_state_def dev_def)
  show ?thesis
    using build_metadata_revalidates_dim [OF init, of "[8, 4]" example_env
        "example_state [dev 0, dev 1] [8, 4]" example_props None]
      build_metadata_revalidates_dim [OF init, of "[8, 4, 6]" example_env
        "example_state [dev 0, dev 1] [8, 4, 6]" example_props None]
    by simp
qed

section \<open>Construction of a chunk spec\<close>


lemma parsed_entry_is_remote_device:
  "parsed_entry env old new \<Longrightarrow> is_remote_device new"
  by (auto simp: parsed_entry_def is_remote_device_def
      split: remote_device_or_str.splits sum.splits)

lemma post_init_loop_result:
  "post_init_loop env ref i st = (None, st') \<Longrightarrow>
     length (lists st' ref) = length (lists st ref)
     \<and> (\<forall>j < length (lists st ref).
           (j < i \<longrightarrow> lists st' ref ! j = lists st ref ! j)
           \<and> (i \<le> j \<longrightarrow> parsed_entry env (lists st ref ! j) (lists st' ref ! j)))"
proof (induction env ref i st rule: post_init_loop.induct)
  case (1 env ref i st)
  show ?case
  proof (cases "i < length (lists st ref)")
    case False
    with "1.prems" show ?thesis
      by (simp add: post_init_loop.simps [of env ref i st])
  next
    case True
    show ?thesis
    proof (cases "lists st ref ! i")
      case (RemoteDevice rd)
      with True "1.prems" have "post_init_loop env ref (Suc i) st = (None, st')"
        by (simp add: post_init_loop.simps [of env ref i st])
      with "1.IH"(2) [OF True RemoteDevice]
      have ih: "length (lists st' ref) = length (lists st ref)"
        "\<And>j. j < length (lists st ref) \<Longrightarrow>
           (j < Suc i \<longrightarrow> lists st' ref ! j = lists st ref ! j)
           \<and> (Suc i \<le> j \<longrightarrow> parsed_entry env (lists st ref ! j) (lists st' ref ! j))"
        by auto
      have "parsed_entry env (lists st ref ! j) (lists st' ref ! j)"
        if "j < length (lists st ref)" "i \<le> j" for j
      proof (cases "j = i")
        case True
        then show ?thesis
          using ih(2) [OF that(1)] RemoteDevice by (simp add: parsed_entry_def)
      next
        case False
        then show ?thesis
          using ih(2) [OF that(1)] that(2) by simp
      qed
      then show ?thesis
        using ih by auto
    next
      case (PlacementStr s)
      show ?thesis
      proof (cases "remote_device_ctor env s")
        case (Inl e)
        with True PlacementStr "1.prems" show ?thesis
          by (simp add: post_init_loop.simps [of env ref i st])
      next
        case (Inr rd)
        let ?st2 = "st\<lparr>lists := (lists st)(ref := (lists st ref)[i := RemoteDevice rd])\<rparr>"
        from True PlacementStr Inr "1.prems"
        have "post_init_loop env ref (Suc i) ?st2 = (None, st')"
          by (simp add: post_init_loop.simps [of env ref i st])
        with "1.IH"(1) [OF True PlacementStr Inr]
        have ih: "length (lists st' ref) = length (lists st ref)"
          "\<And>j. j < length (lists st ref) \<Longrightarrow>
             (j < Suc i \<longrightarrow> lists st' ref ! j = (lists st ref)[i := RemoteDevice rd] ! j)
             \<and> (Suc i \<le> j \<longrightarrow>
                  parsed_entry env ((lists st ref)[i := RemoteDevice rd] ! j) (lists st' ref ! j))"
          by auto
        have "parsed_entry env (lists st ref ! j) (lists st' ref ! j)"
          if "j < length (lists st ref)" "i \<le> j" for j
        proof (cases "j = i")
          case True
          then show ?thesis
            using ih(2) [OF that(1)] that(1) PlacementStr Inr by (simp add: parsed_entry_def)
        next
          case False
          then show ?thesis
            using ih(2) [OF that(1)] that(2) by simp
        qed
        moreover have "lists st' ref ! j = lists st ref ! j"
          if "j < length (lists st ref)" "j < i" for j
          using ih(2) [OF that(1)] that(2) by simp
        ultimately show ?thesis
          using ih(1) by auto
      qed
    qed
  qed
qed

text \<open>
  C10. When construction succeeds, the spec holds the list object it was given, and that
  object has changed in place: entry by entry, a remote-device object is still there and
  a string has been replaced by the remote-device object parsed from it, so that no string
  is left in the caller's list.
\<close>

theorem post_init_replaces_strings_in_place:
  assumes "ChunkShardingSpec_init env d ref st = (Inr self, st')"
  shows "placements self = ref
     \<and> list_all2 (parsed_entry env) (lists st ref) (lists st' ref)
     \<and> list_all is_remote_device (lists st' ref)"
proof -
  from assms have loop: "post_init_loop env ref 0 st = (None, st')"
    by (auto simp: ChunkShardingSpec_init_def split: option.splits prod.splits)
  have len: "length (lists st' ref) = length (lists st ref)"
    and each: "\<And>j. j < length (lists st ref) \<Longrightarrow>
        parsed_entry env (lists st ref ! j) (lists st' ref ! j)"
    using post_init_loop_result [OF loop] by auto
  have all2: "list_all2 (parsed_entry env) (lists st ref) (lists st' ref)"
    using len each by (simp add: list_all2_conv_all_nth)
  have "is_remote_device p" if "p \<in> set (lists st' ref)" for p
  proof -
    from that obtain j where "j < length (lists st' ref)" "p = lists st' ref ! j"
      by (auto simp: in_set_conv_nth)
    then show ?thesis
      using each [of j] len by (auto dest: parsed_entry_is_remote_device)
  qed
  then have "list_all is_remote_device (lists st' ref)"
    by (simp add: list_all_iff)
  moreover have "placements self = ref"
    using assms by (rule ChunkShardingSpec_init_fields)
  ultimately show ?thesis
    using all2 by simp
qed

theorem post_init_replaces_strings_in_place_witness:
  "lists (snd (ChunkShardingSpec_init example_env (IntDim 0) 0
       (example_state [PlacementStr ''rank:0/cuda:0'', dev 1, PlacementStr ''rank:2/cpu''] [8, 4]))) 0
     = [RemoteDevice \<lparr>rd_rank = 0, rd_device = Some ''cuda:0''\<rparr>, dev 1, dev 2]
   \<and> list_all2 (parsed_entry example_env)
       [PlacementStr ''rank:0/cuda:0'', dev 1, PlacementStr ''rank:2/cpu'']
       (lists (snd (ChunkShardingSpec_init example_env (IntDim 0) 0
          (example_state [PlacementStr ''rank:0/cuda:0'', dev 1, PlacementStr ''rank:2/cpu''] [8, 4]))) 0)"
proof -
  let ?st = "example_state [PlacementStr ''rank:0/cuda:0'', dev 1, PlacementStr ''rank:2/cpu''] [8, 4]"
  have r: "fst (ChunkShardingSpec_init example_env (IntDim 0) 0 ?st)
      = Inr \<lparr>dim = IntDim 0, placements = 0\<rparr>"
    and l: "lists (snd (ChunkShardingSpec_init example_env (IntDim 0) 0 ?st)) 0
      = [RemoteDevice \<lparr>rd_rank = 0, rd_device = Some ''cuda:0''\<rparr>, dev 1, dev 2]"
    by (simp_all add: ChunkShardingSpec_init_def verify_dim_def post_init_loop.simps
        example_state_def example_env_def example_ctor_def digit_of_def dev_def)
  have run: "ChunkShardingSpec_init example_env (IntDim 0) 0 ?st
      = (Inr \<lparr>dim = IntDim 0, placements = 0\<rparr>,
         snd (ChunkShardingSpec_init example_env (IntDim 0) 0 ?st))"
    using r by (simp add: prod_eq_iff)
  have "lists ?st 0 = [PlacementStr ''rank:0/cuda:0'', dev 1, PlacementStr ''rank:2/cpu'']"
    by (simp add: example_state_def)
  then show ?thesis
    using post_init_replaces_strings_in_place [OF run] l by simp
qed

section \<open>The local tensor of a shard\<close>

lemma narrow_loop_alias_or_fresh:
  "narrow_loop tensor m xs lt st = (Inr lt', st') \<Longrightarrow>
     (lt' = lt \<and> st' = st)
     \<or> (next_tensor st \<le> lt' \<and> lt' < next_tensor st'
        \<and> next_storage st \<le> tensor_storage (tensors st' lt')
        \<and> tensor_grad_fn (tensors st' lt') = None
        \<and> \<not> tensor_requires_grad (tensors st' lt'))"
proof (induction xs arbitrary: lt st)
  case Nil
  then show ?case by simp
next
  case (Cons x xs)
  obtain idx off sz where x: "x = (idx, off, sz)" by (cases x)
  show ?case
  proof (cases "idx < length (tensor_size (tensors st tensor))
      \<and> sz < tensor_size (tensors st tensor) ! idx")
    case False
    with Cons.prems x have "narrow_loop tensor m xs lt st = (Inr lt', st')"
      by (auto split: if_splits)
    then show ?thesis by (rule Cons.IH)
  next
    case True
    with Cons.prems x obtain lt1 st1 where
      step: "narrow_clone_detach_contiguous lt idx (shard_offsets m ! idx) (shard_sizes m ! idx) st
               = (Inr lt1, st1)"
      and rest: "narrow_loop tensor m xs lt1 st1 = (Inr lt', st')"
      by (auto split: sum.splits prod.splits)
    note f = narrow_step_result [OF step]
    from Cons.IH [OF rest] show ?thesis
    proof
      assume "lt' = lt1 \<and> st' = st1"
      then show ?thesis using f(1,2,3,6,7,8) by simp
    next
      assume "next_tensor st1 \<le> lt' \<and> lt' < next_tensor st'
        \<and> next_storage st1 \<le> tensor_storage (tensors st' lt')
        \<and> tensor_grad_fn (tensors st' lt') = None
        \<and> \<not> tensor_requires_grad (tensors st' lt')"
      then show ?thesis using f(2,3) by simp
    qed
  qed
qed

text \<open>
  C5 does not hold of the code where a shard has the size of the whole tensor, as with a
  single placement: no dimension is narrowed and \<open>local_tensor\<close> is still \<^verbatim>\<open>tensor\<close> when
  its \<^verbatim>\<open>requires_grad\<close> is assigned. For a tensor that is the result of a multiplication
  the assignment raises \<^verbatim>\<open>RuntimeError\<close>, after the broadcast, and there is no handle. For a
  leaf the handle receives the broadcast tensor itself: its shard is reference 0, on the
  same storage, and no tensor has been allocated.
\<close>

theorem shard_whole_tensor_shard_not_a_copy:
  "fst (shard example_env \<lparr>dim = IntDim 0, placements = 0\<rparr> 0 0 None
          (example_state [dev 1] [8, 4]))
     = Inl (RuntimeError ''you can only change requires_grad flags of leaf variables.'')
   \<and> collectives (snd (shard example_env \<lparr>dim = IntDim 0, placements = 0\<rparr> 0 0 None
          (example_state [dev 1] [8, 4])))
     = [Broadcast 0 0 None]
   \<and> fst (shard example_env \<lparr>dim = IntDim 0, placements = 0\<rparr> 0 0 None
          (example_leaf_state [dev 1] [8, 4]))
     = Inr \<lparr>st_local_shards =
              [\<lparr>shard_tensor = 0,
                metadata = \<lparr>shard_offsets = [0, 0], shard_sizes = [8, 4], placement = dev 1\<rparr>\<rparr>],
            st_size = [8, 4], st_process_group = None,
            sharding_spec = Some \<lparr>dim = IntDim 0, placements = 0\<rparr>\<rparr>
   \<and> tensor_storage (tensors (snd (shard example_env \<lparr>dim = IntDim 0, placements = 0\<rparr> 0 0 None
          (example_leaf_state [dev 1] [8, 4]))) 0)
     = tensor_storage (tensors (example_leaf_state [dev 1] [8, 4]) 0)
   \<and> next_tensor (snd (shard example_env \<lparr>dim = IntDim 0, placements = 0\<rparr> 0 0 None
          (example_leaf_state [dev 1] [8, 4])))
     = next_tensor (example_leaf_state [dev 1] [8, 4])"
  by (simp add: example_defs example_leaf_state_def)

section \<open>The enumerable variant\<close>


lemma all_coords_iff: "q \<in> set (all_coords ts) \<longleftrightarrow> in_global q ts"
proof (induction ts arbitrary: q)
  case Nil
  then show ?case by (simp add: in_global_def)
next
  case (Cons g gs)
  have "q \<in> set (all_coords (g # gs)) \<longleftrightarrow>
      (\<exists>x r. q = x # r \<and> 0 \<le> x \<and> x < g \<and> r \<in> set (all_coords gs))"
    by auto
  also have "\<dots> \<longleftrightarrow> (\<exists>x r. q = x # r \<and> 0 \<le> x \<and> x < g \<and> in_global r gs)"
    using Cons.IH by simp
  also have "\<dots> \<longleftrightarrow> in_global q (g # gs)"
    by (auto simp: in_global_def list_all2_Cons2)
  finally show ?case .
qed

lemma check_ranks_error:
  "check_ranks r xs = Some e \<Longrightarrow> \<exists>a b. e = ValueError (InconsistentRanks a b)"
  by (induction xs arbitrary: r) (auto split: if_splits)

lemma check_ranks_same:
  "check_ranks r xs = None \<Longrightarrow> s \<in> set xs \<Longrightarrow>
     (r \<noteq> - 1 \<longrightarrow> int (length (shard_offsets s)) = r)
     \<and> (\<forall>s' \<in> set xs. length (shard_offsets s') = length (shard_offsets s))"
proof (induction xs arbitrary: r s)
  case Nil
  then show ?case by simp
next
  case (Cons x xs)
  from Cons.prems(1) have here: "r = - 1 \<or> r = int (length (shard_offsets x))"
    and rest: "check_ranks (int (length (shard_offsets x))) xs = None"
    by (auto split: if_splits)
  have tl: "int (length (shard_offsets t)) = int (length (shard_offsets x))" if "t \<in> set xs" for t
    using Cons.IH [OF rest that] by simp
  show ?case
    using Cons.prems(2) here tl by auto
qed

lemma in_box_both_intersect:
  assumes "in_box p s1" and "in_box p s2"
  shows "boxes_intersect s1 s2"
proof -
  let ?z1 = "zip (shard_offsets s1) (shard_sizes s1)"
  let ?z2 = "zip (shard_offsets s2) (shard_sizes s2)"
  have l1: "length p = length ?z1" and l2: "length p = length ?z2"
    using assms by (auto simp: in_box_def dest: list_all2_lengthD)
  have "(case ?z1 ! n of (o1, z1) \<Rightarrow> \<lambda>(o2, z2). max o1 o2 < min (o1 + z1) (o2 + z2)) (?z2 ! n)"
    if "n < length ?z1" for n
  proof -
    obtain o1 z1 where a: "?z1 ! n = (o1, z1)" by (cases "?z1 ! n")
    obtain o2 z2 where b: "?z2 ! n = (o2, z2)" by (cases "?z2 ! n")
    have np: "n < length p"
      using that l1 by simp
    have A1: "list_all2 (\<lambda>x (off, z). off \<le> x \<and> x < off + z) p ?z1"
      using assms(1) unfolding in_box_def .
    have A2: "list_all2 (\<lambda>x (off, z). off \<le> x \<and> x < off + z) p ?z2"
      using assms(2) unfolding in_box_def .
    have "o1 \<le> p ! n \<and> p ! n < o1 + z1"
      using list_all2_nthD [OF A1 np] unfolding a by simp
    moreover have "o2 \<le> p ! n \<and> p ! n < o2 + z2"
      using list_all2_nthD [OF A2 np] unfolding b by simp
    ultimately show ?thesis
      by (simp add: a b)
  qed
  then show ?thesis
    unfolding boxes_intersect_def using l1 l2 by (simp add: list_all2_conv_all_nth)
qed

lemma validate_non_overlapping_pairs:
  "validate_non_overlapping_shards_metadata xs = None \<Longrightarrow> i < j \<Longrightarrow> j < length xs \<Longrightarrow>
     \<not> boxes_intersect (xs ! i) (xs ! j)"
proof (induction xs arbitrary: i j)
  case Nil
  then show ?case by simp
next
  case (Cons x xs)
  from Cons.prems(1) have none: "\<not> list_ex (boxes_intersect x) xs"
    and rest: "validate_non_overlapping_shards_metadata xs = None"
    by (auto split: if_splits)
  obtain j' where j: "j = Suc j'" using Cons.prems(2) by (cases j) auto
  show ?case
  proof (cases i)
    case 0
    have "xs ! j' \<in> set xs" using Cons.prems(3) j by simp
    then show ?thesis using none 0 j by (auto simp: list_ex_iff)
  next
    case (Suc i')
    then show ?thesis
      using Cons.IH [OF rest, of i' j'] Cons.prems(2,3) j by simp
  qed
qed

lemma validate_non_overlapping_error:
  "validate_non_overlapping_shards_metadata xs = Some e \<Longrightarrow> e = ValueError ShardsOverlap"
  by (induction xs) (auto split: if_splits)

lemma check_tensor_eq:
  "check_tensor sl ts =
     (if (\<forall>s \<in> set sl. lies_within s ts)
         \<and> (\<forall>q. in_global q ts \<longrightarrow> length (filter (in_box q) sl) = 1)
      then None else Some (ValueError ShapeMismatch))"
  by (simp add: check_tensor_def list_all_iff all_coords_iff)

lemma EnumerableShardingSpec_init_ranks:
  assumes "i < j" and "j < length sl"
    and "length (shard_offsets (sl ! i)) \<noteq> length (shard_offsets (sl ! j))"
  shows "\<exists>a b. EnumerableShardingSpec_init sl = Inl (ValueError (InconsistentRanks a b))"
proof (cases "check_ranks (- 1) sl")
  case None
  have "sl ! i \<in> set sl" and "sl ! j \<in> set sl"
    using assms(1,2) by simp_all
  with check_ranks_same [OF None] assms(3) show ?thesis by blast
next
  case (Some e)
  moreover from Some obtain a b where "e = ValueError (InconsistentRanks a b)"
    by (auto dest: check_ranks_error)
  moreover have "length sl \<noteq> 0"
    using assms(2) by auto
  ultimately show ?thesis
    by (simp add: EnumerableShardingSpec_init_def)
qed

lemma EnumerableShardingSpec_init_overlap:
  assumes "i < j" and "j < length sl" and "in_box p (sl ! i)" and "in_box p (sl ! j)"
  shows "(\<exists>a b. EnumerableShardingSpec_init sl = Inl (ValueError (InconsistentRanks a b)))
      \<or> EnumerableShardingSpec_init sl = Inl (ValueError ShardsOverlap)"
proof (cases "check_ranks (- 1) sl")
  case (Some e)
  moreover from Some obtain a b where "e = ValueError (InconsistentRanks a b)"
    by (auto dest: check_ranks_error)
  moreover have "length sl \<noteq> 0"
    using assms(2) by auto
  ultimately show ?thesis
    by (simp add: EnumerableShardingSpec_init_def)
next
  case None
  have ne: "length sl \<noteq> 0"
    using assms(2) by auto
  have "boxes_intersect (sl ! i) (sl ! j)"
    using assms(3,4) by (rule in_box_both_intersect)
  then have "validate_non_overlapping_shards_metadata sl \<noteq> None"
    using validate_non_overlapping_pairs [OF _ assms(1,2)] by blast
  then obtain e where e: "validate_non_overlapping_shards_metadata sl = Some e"
    by auto
  then have "e = ValueError ShardsOverlap"
    by (rule validate_non_overlapping_error)
  with e None ne show ?thesis
    by (simp add: EnumerableShardingSpec_init_def)
qed

lemma EnumerableShardingSpec_init_shards:
  "EnumerableShardingSpec_init sl = Inr self \<Longrightarrow> shards self = sl"
  by (auto simp: EnumerableShardingSpec_init_def split: if_splits option.splits)

text \<open>
  C7. Construction of an enumerable spec fails on the empty list; fails with the
  inconsistent-rank error when two shards of the list have offset sequences of different
  lengths; and fails (with that error or with the overlap error) when two shards of the
  list have a coordinate \<open>p\<close> in common. For a constructed spec, which holds the list as
  given, \<^verbatim>\<open>build_metadata\<close> fails when a shard does not lie within the global shape or when
  a coordinate \<open>q\<close> of the global shape lies in no shard or in several; when every shard
  lies within bounds and every coordinate lies in exactly one shard, it returns the
  metadata with the list as it was supplied.
\<close>

theorem enumerable_spec_validation:
  "EnumerableShardingSpec_init [] = Inl (ValueError EmptyShardList)
   \<and> (i < j \<and> j < length sl
        \<and> length (shard_offsets (sl ! i)) \<noteq> length (shard_offsets (sl ! j))
      \<longrightarrow> (\<exists>a b. EnumerableShardingSpec_init sl = Inl (ValueError (InconsistentRanks a b))))
   \<and> (i < j \<and> j < length sl \<and> in_box p (sl ! i) \<and> in_box p (sl ! j)
      \<longrightarrow> (\<exists>a b. EnumerableShardingSpec_init sl = Inl (ValueError (InconsistentRanks a b)))
          \<or> EnumerableShardingSpec_init sl = Inl (ValueError ShardsOverlap))
   \<and> (EnumerableShardingSpec_init sl = Inr self
      \<longrightarrow> shards self = sl
        \<and> (s \<in> set sl \<and> \<not> lies_within s ts
           \<longrightarrow> Enumerable_build_metadata self ts props pg = Inl (ValueError ShapeMismatch))
        \<and> (in_global q ts \<and> length (filter (in_box q) sl) \<noteq> 1
           \<longrightarrow> Enumerable_build_metadata self ts props pg = Inl (ValueError ShapeMismatch))
        \<and> ((\<forall>s \<in> set sl. lies_within s ts)
            \<and> (\<forall>q. in_global q ts \<longrightarrow> length (filter (in_box q) sl) = 1)
           \<longrightarrow> Enumerable_build_metadata self ts props pg
               = Inr \<lparr>shards_metadata = sl, md_size = ts, tensor_properties = props\<rparr>))"
proof -
  have empty: "EnumerableShardingSpec_init [] = Inl (ValueError EmptyShardList)"
    by (simp add: EnumerableShardingSpec_init_def)
  have build: "shards self = sl
        \<and> (s \<in> set sl \<and> \<not> lies_within s ts
           \<longrightarrow> Enumerable_build_metadata self ts props pg = Inl (ValueError ShapeMismatch))
        \<and> (in_global q ts \<and> length (filter (in_box q) sl) \<noteq> 1
           \<longrightarrow> Enumerable_build_metadata self ts props pg = Inl (ValueError ShapeMismatch))
        \<and> ((\<forall>s \<in> set sl. lies_within s ts)
            \<and> (\<forall>q. in_global q ts \<longrightarrow> length (filter (in_box q) sl) = 1)
           \<longrightarrow> Enumerable_build_metadata self ts props pg
               = Inr \<lparr>shards_metadata = sl, md_size = ts, tensor_properties = props\<rparr>)"
    if "EnumerableShardingSpec_init sl = Inr self"
  proof -
    have sh: "shards self = sl"
      using that by (rule EnumerableShardingSpec_init_shards)
    show ?thesis
      unfolding Enumerable_build_metadata_def sh check_tensor_eq
      by auto
  qed
  show ?thesis
    using empty EnumerableShardingSpec_init_ranks [of i j sl]
      EnumerableShardingSpec_init_overlap [of i j sl p] build
    by blast
qed

theorem enumerable_spec_validation_witness:
  "(\<exists>a b. EnumerableShardingSpec_init
        [\<lparr>shard_offsets = [0], shard_sizes = [2], placement = dev 0\<rparr>,
         \<lparr>shard_offsets = [2, 0], shard_sizes = [2, 2], placement = dev 1\<rparr>]
      = Inl (ValueError (InconsistentRanks a b)))
   \<and> ((\<exists>a b. EnumerableShardingSpec_init
        [\<lparr>shard_offsets = [0], shard_sizes = [3], placement = dev 0\<rparr>,
         \<lparr>shard_offsets = [2], shard_sizes = [2], placement = dev 1\<rparr>]
      = Inl (ValueError (InconsistentRanks a b)))
      \<or> EnumerableShardingSpec_init
        [\<lparr>shard_offsets = [0], shard_sizes = [3], placement = dev 0\<rparr>,
         \<lparr>shard_offsets = [2], shard_sizes = [2], placement = dev 1\<rparr>]
      = Inl (ValueError ShardsOverlap))
   \<and> Enumerable_build_metadata
        \<lparr>shards = [\<lparr>shard_offsets = [0, 0], shard_sizes = [1, 2], placement = dev 0\<rparr>,
                   \<lparr>shard_offsets = [1, 0], shard_sizes = [1, 2], placement = dev 1\<rparr>]\<rparr>
        [2, 2] example_props None
      = Inr \<lparr>shards_metadata =
               [\<lparr>shard_offsets = [0, 0], shard_sizes = [1, 2], placement = dev 0\<rparr>,
                \<lparr>shard_offsets = [1, 0], shard_sizes = [1, 2], placement = dev 1\<rparr>],
             md_size = [2, 2], tensor_properties = example_props\<rparr>
   \<and> Enumerable_build_metadata
        \<lparr>shards = [\<lparr>shard_offsets = [0, 0], shard_sizes = [1, 2], placement = dev 0\<rparr>,
                   \<lparr>shard_offsets = [1, 0], shard_sizes = [1, 2], placement = dev 1\<rparr>]\<rparr>
        [3, 2] example_props None
      = Inl (ValueError ShapeMismatch)"
proof -
  let ?a = "[\<lparr>shard_offsets = [0], shard_sizes = [2], placement = dev 0\<rparr>,
         \<lparr>shard_offsets = [2, 0], shard_sizes = [2, 2], placement = dev 1\<rparr>]"
  let ?b = "[\<lparr>shard_offsets = [0], shard_sizes = [3], placement = dev 0\<rparr>,
         \<lparr>shard_offsets = [2], shard_sizes = [2], placement = dev 1\<rparr>]"
  let ?c = "[\<lparr>shard_offsets = [0, 0], shard_sizes = [1, 2], placement = dev 0\<rparr>,
         \<lparr>shard_offsets = [1, 0], shard_sizes = [1, 2], placement = dev 1\<rparr>]"
  have ranks: "(0::nat) < 1 \<and> 1 < length ?a
      \<and> length (shard_offsets (?a ! 0)) \<noteq> length (shard_offsets (?a ! 1))"
    by simp
  have overlap: "(0::nat) < 1 \<and> 1 < length ?b \<and> in_box [2] (?b ! 0) \<and> in_box [2] (?b ! 1)"
    by (simp add: in_box_def)
  have init: "EnumerableShardingSpec_init ?c = Inr \<lparr>shards = ?c\<rparr>"
    by (simp add: EnumerableShardingSpec_init_def boxes_intersect_def)
  have within: "\<forall>s \<in> set ?c. lies_within s [2, 2]"
    by (simp add: lies_within_def)
  have sweep: "list_all (\<lambda>q. length (filter (in_box q) ?c) = 1) (all_coords [2, 2])"
    by (simp add: in_box_def upto_rec1)
  have cover: "\<forall>q. in_global q [2, 2] \<longrightarrow> length (filter (in_box q) ?c) = 1"
  proof (intro allI impI)
    fix q :: "int list"
    assume "in_global q [2, 2]"
    then have "q \<in> set (all_coords [2, 2])"
      by (simp only: all_coords_iff)
    with sweep [unfolded list_all_iff] show "length (filter (in_box q) ?c) = 1"
      by (rule bspec)
  qed
  have gap: "in_global [2, 0] [3, 2] \<and> length (filter (in_box [2, 0]) ?c) \<noteq> 1"
    by (simp add: in_global_def in_box_def)
  note A = enumerable_spec_validation
    [of 0 1 ?a "[]" "\<lparr>shards = ?a\<rparr>" "hd ?a" "[]" example_props None "[]",
     THEN conjunct2, THEN conjunct1, rule_format, OF ranks]
  note B = enumerable_spec_validation
    [of 0 1 ?b "[2]" "\<lparr>shards = ?b\<rparr>" "hd ?b" "[]" example_props None "[]",
     THEN conjunct2, THEN conjunct2, THEN conjunct1, rule_format, OF overlap]
  note C = enumerable_spec_validation
    [of 0 1 ?c "[]" "\<lparr>shards = ?c\<rparr>" "hd ?c" "[2, 2]" example_props None "[]",
     THEN conjunct2, THEN conjunct2, THEN conjunct2, rule_format, OF init,
     THEN conjunct2, THEN conjunct2, THEN conjunct2, rule_format, OF conjI, OF within cover]
  note D = enumerable_spec_validation
    [of 0 1 ?c "[]" "\<lparr>shards = ?c\<rparr>" "hd ?c" "[3, 2]" example_props None "[2, 0]",
     THEN conjunct2, THEN conjunct2, THEN conjunct2, rule_format, OF init,
     THEN conjunct2, THEN conjunct2, THEN conjunct1, rule_format, OF gap]
  from A B C D show ?thesis
    by (intro conjI)
qed

end
